theory Spec2Isabelle
  imports Main "HOL-Library.Word"
begin

section \<open>The host interface seen by API.hpp\<close>

text \<open>
  \<^verbatim>\<open>src/include/uevr/API.hpp\<close> wraps the C interface of \<^verbatim>\<open>API.h\<close>: opaque handles and
  tables of function pointers that the host hands over once. A handle is an address;
  the wrapper structs (\<^verbatim>\<open>UObject\<close>, \<^verbatim>\<open>FName\<close>, ...) have no members, so a wrapper
  pointer and its handle are the same 64-bit number (\<^verbatim>\<open>to_handle\<close> is a cast of
  \<^verbatim>\<open>this\<close>). The null pointer is \<open>0\<close>.
\<close>

type_synonym handle = "64 word"

abbreviation nullptr :: handle where
  "nullptr \<equiv> 0"

text \<open>
  \<^verbatim>\<open>wchar_t\<close> (16 bits on the platform of the host) and \<^verbatim>\<open>std::wstring\<close>.
\<close>

type_synonym wchar = "16 word"
type_synonym wstring = "wchar list"

definition dot :: wchar where
  "dot = 46"

definition space :: wchar where
  "space = 32"

text \<open>
  The function tables. \<^verbatim>\<open>API.h\<close> declares them; the fields below are the ones API.hpp
  reads, each named after its table and its slot (\<^verbatim>\<open>sdk->uobject->get_class\<close> is
  \<open>uobject_get_class\<close>). A host function is a function of the host's state \<open>'h\<close>: it
  returns its result and the host's next state, so that two calls with the same arguments
  may answer differently. The counts that the host returns and the capacities it is given
  are taken as \<^verbatim>\<open>unsigned int\<close>, 32 bits, and \<^verbatim>\<open>get_offset\<close> as returning the 32 bits of an
  \<^verbatim>\<open>int32_t\<close>. A slot of a table is never itself null.

  A function that fills a caller's buffer takes the destination (\<open>None\<close> for a null
  pointer, otherwise the buffer's present contents) and its capacity, and returns, next
  to its count, the elements it stores from the start of the destination.
\<close>

record 'h UEVR_FNameFunctions =
  fname_to_string :: "handle \<Rightarrow> wstring option \<Rightarrow> 32 word \<Rightarrow> 'h \<Rightarrow> (32 word \<times> wstring) \<times> 'h"

record 'h UEVR_UObjectFunctions =
  uobject_get_class :: "handle \<Rightarrow> 'h \<Rightarrow> handle \<times> 'h"
  uobject_get_outer :: "handle \<Rightarrow> 'h \<Rightarrow> handle \<times> 'h"
  uobject_is_a :: "handle \<Rightarrow> handle \<Rightarrow> 'h \<Rightarrow> bool \<times> 'h"
  uobject_process_event :: "handle \<Rightarrow> handle \<Rightarrow> handle \<Rightarrow> 'h \<Rightarrow> 'h"
  uobject_call_function :: "handle \<Rightarrow> wstring \<Rightarrow> handle \<Rightarrow> 'h \<Rightarrow> 'h"
  uobject_get_property_data :: "handle \<Rightarrow> wstring \<Rightarrow> 'h \<Rightarrow> handle \<times> 'h"
  uobject_get_fname :: "handle \<Rightarrow> 'h \<Rightarrow> handle \<times> 'h"

record 'h UEVR_UStructFunctions =
  ustruct_get_super_struct :: "handle \<Rightarrow> 'h \<Rightarrow> handle \<times> 'h"
  ustruct_find_function :: "handle \<Rightarrow> wstring \<Rightarrow> 'h \<Rightarrow> handle \<times> 'h"
  ustruct_get_child_properties :: "handle \<Rightarrow> 'h \<Rightarrow> handle \<times> 'h"

record 'h UEVR_UClassFunctions =
  uclass_get_class_default_object :: "handle \<Rightarrow> 'h \<Rightarrow> handle \<times> 'h"

record 'h UEVR_UFunctionFunctions =
  ufunction_get_native_function :: "handle \<Rightarrow> 'h \<Rightarrow> handle \<times> 'h"

record 'h UEVR_FFieldFunctions =
  ffield_get_next :: "handle \<Rightarrow> 'h \<Rightarrow> handle \<times> 'h"
  ffield_get_fname :: "handle \<Rightarrow> 'h \<Rightarrow> handle \<times> 'h"
  ffield_get_class :: "handle \<Rightarrow> 'h \<Rightarrow> handle \<times> 'h"

record 'h UEVR_FPropertyFunctions =
  fproperty_get_offset :: "handle \<Rightarrow> 'h \<Rightarrow> 32 word \<times> 'h"

record 'h UEVR_FFieldClassFunctions =
  ffield_class_get_fname :: "handle \<Rightarrow> 'h \<Rightarrow> handle \<times> 'h"

record 'h UEVR_UObjectHookFunctions =
  hook_activate :: "'h \<Rightarrow> 'h"
  hook_get_objects_by_class ::
    "handle \<Rightarrow> handle list option \<Rightarrow> 32 word \<Rightarrow> bool \<Rightarrow> 'h \<Rightarrow> (32 word \<times> handle list) \<times> 'h"
  hook_get_first_object_by_class :: "handle \<Rightarrow> bool \<Rightarrow> 'h \<Rightarrow> handle \<times> 'h"

text \<open>
  \<^verbatim>\<open>UEVR_SDKData\<close> points to one table per kind, and \<^verbatim>\<open>UEVR_PluginInitializeParam\<close>
  points to it and to the logging callbacks (a format and its arguments). Every pointer
  may be null (\<open>None\<close>).
\<close>

record 'h UEVR_SDKData =
  fname :: "'h UEVR_FNameFunctions option"
  uobject :: "'h UEVR_UObjectFunctions option"
  ustruct :: "'h UEVR_UStructFunctions option"
  uclass :: "'h UEVR_UClassFunctions option"
  ufunction :: "'h UEVR_UFunctionFunctions option"
  ffield :: "'h UEVR_FFieldFunctions option"
  fproperty :: "'h UEVR_FPropertyFunctions option"
  ffield_class :: "'h UEVR_FFieldClassFunctions option"
  uobject_hook :: "'h UEVR_UObjectHookFunctions option"

record 'h UEVR_PluginFunctions =
  plugin_log_error :: "string \<Rightarrow> string list \<Rightarrow> 'h \<Rightarrow> 'h"
  plugin_log_warn :: "string \<Rightarrow> string list \<Rightarrow> 'h \<Rightarrow> 'h"
  plugin_log_info :: "string \<Rightarrow> string list \<Rightarrow> 'h \<Rightarrow> 'h"

record 'h UEVR_PluginInitializeParam =
  param_functions :: "'h UEVR_PluginFunctions option"
  sdk :: "'h UEVR_SDKData option"

section \<open>The state of the process\<close>

text \<open>The members of \<^verbatim>\<open>class API\<close>.\<close>

record 'h API =
  m_param :: "'h UEVR_PluginInitializeParam"
  m_sdk :: "'h UEVR_SDKData option"

text \<open>
  The kinds of entity that have a cached function table (\<^verbatim>\<open>s_functions\<close>), and what an
  observer of the process sees: a table pointer read from the entry point, or a call of a
  host function with its arguments.
\<close>

datatype kind =
  K_FName | K_UObject | K_UStruct | K_UClass | K_UFunction | K_FField | K_FProperty | K_FFieldClass

datatype event =
  Fetch kind
  | E_to_string handle "wstring option" "32 word"
  | E_get_class handle
  | E_get_outer handle
  | E_is_a handle handle
  | E_process_event handle handle handle
  | E_call_function handle wstring handle
  | E_get_property_data handle wstring
  | E_get_fname handle
  | E_get_super_struct handle
  | E_find_function handle wstring
  | E_get_child_properties handle
  | E_get_class_default_object handle
  | E_get_native_function handle
  | E_ffield_get_next handle
  | E_ffield_get_fname handle
  | E_ffield_get_class handle
  | E_get_offset handle
  | E_ffield_class_get_fname handle
  | E_activate
  | E_get_objects_by_class handle "handle list option" "32 word" bool
  | E_get_first_object_by_class handle bool

text \<open>
  The mutable state: the host, the singleton \<^verbatim>\<open>API::s_instance\<close>, the \<^verbatim>\<open>s_functions\<close>
  of every wrapper struct, and the function-local statics (\<^verbatim>\<open>static const auto fn\<close>) of
  every wrapper function, \<open>None\<close> until their initialiser has completed (the function
  template \<^verbatim>\<open>get_property_data<T>\<close> has one static for every \<^verbatim>\<open>T\<close>, here the name of the
  type). \<open>trace\<close> is the observer's log; nothing reads it.
\<close>

record 'h world =
  host :: 'h
  trace :: "event list"
  s_instance :: "'h API option"
  FName_s_functions :: "'h UEVR_FNameFunctions option"
  UObject_s_functions :: "'h UEVR_UObjectFunctions option"
  UStruct_s_functions :: "'h UEVR_UStructFunctions option"
  UClass_s_functions :: "'h UEVR_UClassFunctions option"
  UFunction_s_functions :: "'h UEVR_UFunctionFunctions option"
  FField_s_functions :: "'h UEVR_FFieldFunctions option"
  FProperty_s_functions :: "'h UEVR_FPropertyFunctions option"
  FFieldClass_s_functions :: "'h UEVR_FFieldClassFunctions option"
  FName_to_string_fn :: "(handle \<Rightarrow> wstring option \<Rightarrow> 32 word \<Rightarrow> 'h \<Rightarrow> (32 word \<times> wstring) \<times> 'h) option"
  UObject_get_class_fn :: "(handle \<Rightarrow> 'h \<Rightarrow> handle \<times> 'h) option"
  UObject_get_outer_fn :: "(handle \<Rightarrow> 'h \<Rightarrow> handle \<times> 'h) option"
  UObject_is_a_fn :: "(handle \<Rightarrow> handle \<Rightarrow> 'h \<Rightarrow> bool \<times> 'h) option"
  UObject_process_event_fn :: "(handle \<Rightarrow> handle \<Rightarrow> handle \<Rightarrow> 'h \<Rightarrow> 'h) option"
  UObject_call_function_fn :: "(handle \<Rightarrow> wstring \<Rightarrow> handle \<Rightarrow> 'h \<Rightarrow> 'h) option"
  UObject_get_property_data_fn :: "string \<Rightarrow> (handle \<Rightarrow> wstring \<Rightarrow> 'h \<Rightarrow> handle \<times> 'h) option"
  UObject_get_fname_fn :: "(handle \<Rightarrow> 'h \<Rightarrow> handle \<times> 'h) option"
  UStruct_get_super_struct_fn :: "(handle \<Rightarrow> 'h \<Rightarrow> handle \<times> 'h) option"
  UStruct_find_function_fn :: "(handle \<Rightarrow> wstring \<Rightarrow> 'h \<Rightarrow> handle \<times> 'h) option"
  UStruct_get_child_properties_fn :: "(handle \<Rightarrow> 'h \<Rightarrow> handle \<times> 'h) option"
  UClass_get_class_default_object_fn :: "(handle \<Rightarrow> 'h \<Rightarrow> handle \<times> 'h) option"
  get_objects_matching_activate_fn :: "('h \<Rightarrow> 'h) option"
  get_objects_matching_fn ::
    "(handle \<Rightarrow> handle list option \<Rightarrow> 32 word \<Rightarrow> bool \<Rightarrow> 'h \<Rightarrow> (32 word \<times> handle list) \<times> 'h) option"
  get_first_object_matching_activate_fn :: "('h \<Rightarrow> 'h) option"
  get_first_object_matching_fn :: "(handle \<Rightarrow> bool \<Rightarrow> 'h \<Rightarrow> handle \<times> 'h) option"
  UFunction_get_native_function_fn :: "(handle \<Rightarrow> 'h \<Rightarrow> handle \<times> 'h) option"
  FField_get_next_fn :: "(handle \<Rightarrow> 'h \<Rightarrow> handle \<times> 'h) option"
  FField_get_fname_fn :: "(handle \<Rightarrow> 'h \<Rightarrow> handle \<times> 'h) option"
  FField_get_class_fn :: "(handle \<Rightarrow> 'h \<Rightarrow> handle \<times> 'h) option"
  FProperty_get_offset_fn :: "(handle \<Rightarrow> 'h \<Rightarrow> 32 word \<times> 'h) option"
  FFieldClass_get_fname_fn :: "(handle \<Rightarrow> 'h \<Rightarrow> handle \<times> 'h) option"

text \<open>The process at its start: no singleton, every static unset, nothing observed.\<close>

definition process_start :: "'h \<Rightarrow> 'h world" where
  "process_start h =
     \<lparr>host = h, trace = [], s_instance = None,
      FName_s_functions = None, UObject_s_functions = None, UStruct_s_functions = None,
      UClass_s_functions = None, UFunction_s_functions = None, FField_s_functions = None,
      FProperty_s_functions = None, FFieldClass_s_functions = None,
      FName_to_string_fn = None,
      UObject_get_class_fn = None, UObject_get_outer_fn = None, UObject_is_a_fn = None,
      UObject_process_event_fn = None, UObject_call_function_fn = None,
      UObject_get_property_data_fn = (\<lambda>T. None), UObject_get_fname_fn = None,
      UStruct_get_super_struct_fn = None, UStruct_find_function_fn = None,
      UStruct_get_child_properties_fn = None,
      UClass_get_class_default_object_fn = None,
      get_objects_matching_activate_fn = None, get_objects_matching_fn = None,
      get_first_object_matching_activate_fn = None, get_first_object_matching_fn = None,
      UFunction_get_native_function_fn = None,
      FField_get_next_fn = None, FField_get_fname_fn = None, FField_get_class_fn = None,
      FProperty_get_offset_fn = None,
      FFieldClass_get_fname_fn = None\<rparr>"

section \<open>Operations that may not return a value\<close>

text \<open>
  An operation ends with a value or is cut short: by a \<^verbatim>\<open>std::runtime_error\<close> with its
  message, by the dereference of a null pointer (undefined in C++; here the fault that
  ends the process), or, for the one loop that may run forever, by the end of the step
  budget the model gives it. The state reached so far is kept in every case.
\<close>

datatype abort = Runtime_Error string | Null_Dereference | Out_Of_Fuel

type_synonym ('h, 'a) action = "'h world \<Rightarrow> (abort + 'a) \<times> 'h world"

definition ret :: "'a \<Rightarrow> ('h, 'a) action" where
  "ret x w = (Inr x, w)"

definition throw :: "abort \<Rightarrow> ('h, 'a) action" where
  "throw e w = (Inl e, w)"

definition then_op :: "('h, 'a) action \<Rightarrow> ('a \<Rightarrow> ('h, 'b) action) \<Rightarrow> ('h, 'b) action" where
  "then_op m f w = (case m w of (Inl e, w') \<Rightarrow> (Inl e, w') | (Inr x, w') \<Rightarrow> f x w')"

text \<open>\<open>p->...\<close> for a pointer \<open>p\<close> that may be null.\<close>

definition deref :: "'a option \<Rightarrow> ('h, 'a) action" where
  "deref p = (case p of None \<Rightarrow> throw Null_Dereference | Some v \<Rightarrow> ret v)"

text \<open>
  A function-local static: its initialiser runs on the first pass, and again on the next
  pass if it threw; once set the static is only read.
\<close>

definition local_static ::
  "('h world \<Rightarrow> 'f option) \<Rightarrow> ('f option \<Rightarrow> 'h world \<Rightarrow> 'h world) \<Rightarrow> ('h, 'f) action \<Rightarrow> ('h, 'f) action" where
  "local_static rd wr init w =
     (case rd w of
        Some f \<Rightarrow> (Inr f, w)
      | None \<Rightarrow> (case init w of (Inl e, w') \<Rightarrow> (Inl e, w') | (Inr f, w') \<Rightarrow> (Inr f, wr (Some f) w')))"

text \<open>A call of a host function: the host moves on and the observer logs the call.\<close>

definition host_call :: "event \<Rightarrow> ('h \<Rightarrow> 'r \<times> 'h) \<Rightarrow> ('h, 'r) action" where
  "host_call ev f w = (case f (host w) of (r, h') \<Rightarrow> (Inr r, w\<lparr>host := h', trace := trace w @ [ev]\<rparr>))"

definition host_call_void :: "event \<Rightarrow> ('h \<Rightarrow> 'h) \<Rightarrow> ('h, unit) action" where
  "host_call_void ev f = host_call ev (\<lambda>h. ((), f h))"

text \<open>The read of a kind's table pointer from the entry point, seen by the observer.\<close>

definition fetch :: "kind \<Rightarrow> 'a \<Rightarrow> ('h, 'a) action" where
  "fetch k v w = (Inr v, w\<lparr>trace := trace w @ [Fetch k]\<rparr>)"

text \<open>
  What a host function stores into a destination buffer: its elements replace the
  buffer's from the start. The buffer keeps its length; a store past its end is outside
  the model.
\<close>

definition overwrite :: "'a list \<Rightarrow> 'a list \<Rightarrow> 'a list" where
  "overwrite buf written = take (length buf) written @ drop (length written) buf"

section \<open>The entry point\<close>

definition API_ctor :: "'h UEVR_PluginInitializeParam \<Rightarrow> 'h API" where
  "API_ctor param = \<lparr>m_param = param, m_sdk = sdk param\<rparr>"

definition API_initialize :: "'h UEVR_PluginInitializeParam option \<Rightarrow> ('h, 'h API) action" where
  "API_initialize param w =
     (case param of
        None \<Rightarrow> (Inl (Runtime_Error ''param is null''), w)
      | Some p \<Rightarrow>
          (if s_instance w \<noteq> None then (Inl (Runtime_Error ''API already initialized''), w)
           else (Inr (API_ctor p), w\<lparr>s_instance := Some (API_ctor p)\<rparr>)))"

definition API_get :: "('h, 'h API) action" where
  "API_get w =
     (case s_instance w of
        None \<Rightarrow> (Inl (Runtime_Error ''API not initialized''), w)
      | Some a \<Rightarrow> (Inr a, w))"

text \<open>\<^verbatim>\<open>API::get()->sdk()\<close>, and the dereference that follows it at every use.\<close>

definition API_get_sdk :: "('h, 'h UEVR_SDKData) action" where
  "API_get_sdk = then_op API_get (\<lambda>api. deref (m_sdk api))"

section \<open>The cached function tables\<close>

text \<open>
  Every wrapper struct has the same private \<^verbatim>\<open>initialize()\<close>: while \<^verbatim>\<open>s_functions\<close> is null
  it reads the kind's table pointer from \<^verbatim>\<open>API::get()->sdk()\<close> and stores it; it returns
  \<^verbatim>\<open>s_functions\<close>.
\<close>

definition FName_initialize :: "('h, 'h UEVR_FNameFunctions option) action" where
  "FName_initialize w =
     (if FName_s_functions w = None then
        then_op (then_op API_get_sdk (\<lambda>d. fetch K_FName (fname d)))
          (\<lambda>t w'. (Inr t, w'\<lparr>FName_s_functions := t\<rparr>)) w
      else (Inr (FName_s_functions w), w))"

definition UObject_initialize :: "('h, 'h UEVR_UObjectFunctions option) action" where
  "UObject_initialize w =
     (if UObject_s_functions w = None then
        then_op (then_op API_get_sdk (\<lambda>d. fetch K_UObject (uobject d)))
          (\<lambda>t w'. (Inr t, w'\<lparr>UObject_s_functions := t\<rparr>)) w
      else (Inr (UObject_s_functions w), w))"

definition UStruct_initialize :: "('h, 'h UEVR_UStructFunctions option) action" where
  "UStruct_initialize w =
     (if UStruct_s_functions w = None then
        then_op (then_op API_get_sdk (\<lambda>d. fetch K_UStruct (ustruct d)))
          (\<lambda>t w'. (Inr t, w'\<lparr>UStruct_s_functions := t\<rparr>)) w
      else (Inr (UStruct_s_functions w), w))"

definition UClass_initialize :: "('h, 'h UEVR_UClassFunctions option) action" where
  "UClass_initialize w =
     (if UClass_s_functions w = None then
        then_op (then_op API_get_sdk (\<lambda>d. fetch K_UClass (uclass d)))
          (\<lambda>t w'. (Inr t, w'\<lparr>UClass_s_functions := t\<rparr>)) w
      else (Inr (UClass_s_functions w), w))"

definition UFunction_initialize :: "('h, 'h UEVR_UFunctionFunctions option) action" where
  "UFunction_initialize w =
     (if UFunction_s_functions w = None then
        then_op (then_op API_get_sdk (\<lambda>d. fetch K_UFunction (ufunction d)))
          (\<lambda>t w'. (Inr t, w'\<lparr>UFunction_s_functions := t\<rparr>)) w
      else (Inr (UFunction_s_functions w), w))"

definition FField_initialize :: "('h, 'h UEVR_FFieldFunctions option) action" where
  "FField_initialize w =
     (if FField_s_functions w = None then
        then_op (then_op API_get_sdk (\<lambda>d. fetch K_FField (ffield d)))
          (\<lambda>t w'. (Inr t, w'\<lparr>FField_s_functions := t\<rparr>)) w
      else (Inr (FField_s_functions w), w))"

definition FProperty_initialize :: "('h, 'h UEVR_FPropertyFunctions option) action" where
  "FProperty_initialize w =
     (if FProperty_s_functions w = None then
        then_op (then_op API_get_sdk (\<lambda>d. fetch K_FProperty (fproperty d)))
          (\<lambda>t w'. (Inr t, w'\<lparr>FProperty_s_functions := t\<rparr>)) w
      else (Inr (FProperty_s_functions w), w))"

definition FFieldClass_initialize :: "('h, 'h UEVR_FFieldClassFunctions option) action" where
  "FFieldClass_initialize w =
     (if FFieldClass_s_functions w = None then
        then_op (then_op API_get_sdk (\<lambda>d. fetch K_FFieldClass (ffield_class d)))
          (\<lambda>t w'. (Inr t, w'\<lparr>FFieldClass_s_functions := t\<rparr>)) w
      else (Inr (FFieldClass_s_functions w), w))"

section \<open>The wrappers\<close>

text \<open>
  A wrapper function begins with \<^verbatim>\<open>static const auto fn = initialize()->slot;\<close> and then
  calls \<^verbatim>\<open>fn\<close> with \<^verbatim>\<open>to_handle()\<close> and its arguments. For every wrapper function \<open>f\<close> the
  action \<open>f_static\<close> is that first line (it yields \<^verbatim>\<open>fn\<close>), and \<open>f\<close> is the function.
  \<open>this\<close> may be null: the wrappers never read through it, they pass it on.
\<close>

subsection \<open>\<^verbatim>\<open>FName\<close>\<close>


definition FName_to_string_static :: "('h, handle \<Rightarrow> wstring option \<Rightarrow> 32 word \<Rightarrow> 'h \<Rightarrow> (32 word \<times> wstring) \<times> 'h) action" where
  "FName_to_string_static =
     local_static FName_to_string_fn (\<lambda>v w. w\<lparr>FName_to_string_fn := v\<rparr>)
       (then_op FName_initialize (\<lambda>t. then_op (deref t) (\<lambda>tbl. ret (fname_to_string tbl))))"

text \<open>
  \<^verbatim>\<open>to_string\<close>: the size query, then \<^verbatim>\<open>std::wstring result(size, L'\0')\<close> and the fill
  call with \<^verbatim>\<open>result.data()\<close> and \<^verbatim>\<open>size + 1\<close> (the sum is \<^verbatim>\<open>unsigned int\<close> and wraps). The
  buffer is the string's \<open>size\<close> characters; the terminator behind them, which the host
  may store again, is not part of the string, and the string keeps the length it was
  built with whatever the host stores. Allocation is taken to succeed.
\<close>

definition FName_to_string :: "handle \<Rightarrow> ('h, wstring) action" where
  "FName_to_string this =
     then_op FName_to_string_static (\<lambda>fn.
       then_op (host_call (E_to_string this None 0) (fn this None 0)) (\<lambda>(size, _).
         if size = 0 then ret []
         else
           let result = replicate (unat size) 0 in
           then_op (host_call (E_to_string this (Some result) (size + 1))
                      (fn this (Some result) (size + 1)))
             (\<lambda>(_, written). ret (overwrite result written))))"

subsection \<open>\<^verbatim>\<open>UObject\<close>\<close>

definition UObject_get_class_static :: "('h, handle \<Rightarrow> 'h \<Rightarrow> handle \<times> 'h) action" where
  "UObject_get_class_static =
     local_static UObject_get_class_fn (\<lambda>v w. w\<lparr>UObject_get_class_fn := v\<rparr>)
       (then_op UObject_initialize (\<lambda>t. then_op (deref t) (\<lambda>tbl. ret (uobject_get_class tbl))))"

definition UObject_get_class :: "handle \<Rightarrow> ('h, handle) action" where
  "UObject_get_class this =
     then_op UObject_get_class_static (\<lambda>fn. host_call (E_get_class this) (fn this))"

definition UObject_get_outer_static :: "('h, handle \<Rightarrow> 'h \<Rightarrow> handle \<times> 'h) action" where
  "UObject_get_outer_static =
     local_static UObject_get_outer_fn (\<lambda>v w. w\<lparr>UObject_get_outer_fn := v\<rparr>)
       (then_op UObject_initialize (\<lambda>t. then_op (deref t) (\<lambda>tbl. ret (uobject_get_outer tbl))))"

definition UObject_get_outer :: "handle \<Rightarrow> ('h, handle) action" where
  "UObject_get_outer this =
     then_op UObject_get_outer_static (\<lambda>fn. host_call (E_get_outer this) (fn this))"

definition UObject_is_a_static :: "('h, handle \<Rightarrow> handle \<Rightarrow> 'h \<Rightarrow> bool \<times> 'h) action" where
  "UObject_is_a_static =
     local_static UObject_is_a_fn (\<lambda>v w. w\<lparr>UObject_is_a_fn := v\<rparr>)
       (then_op UObject_initialize (\<lambda>t. then_op (deref t) (\<lambda>tbl. ret (uobject_is_a tbl))))"

definition UObject_is_a :: "handle \<Rightarrow> handle \<Rightarrow> ('h, bool) action" where
  "UObject_is_a this cmp =
     then_op UObject_is_a_static (\<lambda>fn. host_call (E_is_a this cmp) (fn this cmp))"

definition UObject_process_event_static :: "('h, handle \<Rightarrow> handle \<Rightarrow> handle \<Rightarrow> 'h \<Rightarrow> 'h) action" where
  "UObject_process_event_static =
     local_static UObject_process_event_fn (\<lambda>v w. w\<lparr>UObject_process_event_fn := v\<rparr>)
       (then_op UObject_initialize (\<lambda>t. then_op (deref t) (\<lambda>tbl. ret (uobject_process_event tbl))))"

definition UObject_process_event :: "handle \<Rightarrow> handle \<Rightarrow> handle \<Rightarrow> ('h, unit) action" where
  "UObject_process_event this function params =
     then_op UObject_process_event_static (\<lambda>fn. host_call_void (E_process_event this function params) (fn this function params))"

definition UObject_call_function_static :: "('h, handle \<Rightarrow> wstring \<Rightarrow> handle \<Rightarrow> 'h \<Rightarrow> 'h) action" where
  "UObject_call_function_static =
     local_static UObject_call_function_fn (\<lambda>v w. w\<lparr>UObject_call_function_fn := v\<rparr>)
       (then_op UObject_initialize (\<lambda>t. then_op (deref t) (\<lambda>tbl. ret (uobject_call_function tbl))))"

definition UObject_call_function :: "handle \<Rightarrow> wstring \<Rightarrow> handle \<Rightarrow> ('h, unit) action" where
  "UObject_call_function this name params =
     then_op UObject_call_function_static (\<lambda>fn. host_call_void (E_call_function this name params) (fn this name params))"

text \<open>
  \<^verbatim>\<open>get_property_data<T>\<close>, the overload without \<^verbatim>\<open>T\<close> (it is \<^verbatim>\<open>get_property_data<void*>\<close>)
  and \<^verbatim>\<open>get_property<T>\<close>, which dereferences the address it is given and returns the
  reference.
\<close>

definition UObject_get_property_data_static ::
  "string \<Rightarrow> ('h, handle \<Rightarrow> wstring \<Rightarrow> 'h \<Rightarrow> handle \<times> 'h) action" where
  "UObject_get_property_data_static T =
     local_static (\<lambda>w. UObject_get_property_data_fn w T)
       (\<lambda>v w. w\<lparr>UObject_get_property_data_fn := (UObject_get_property_data_fn w)(T := v)\<rparr>)
       (then_op UObject_initialize (\<lambda>t. then_op (deref t) (\<lambda>tbl. ret (uobject_get_property_data tbl))))"

definition UObject_get_property_data_T :: "string \<Rightarrow> handle \<Rightarrow> wstring \<Rightarrow> ('h, handle) action" where
  "UObject_get_property_data_T T this name =
     then_op (UObject_get_property_data_static T) (\<lambda>fn.
       host_call (E_get_property_data this name) (fn this name))"

definition UObject_get_property_data :: "handle \<Rightarrow> wstring \<Rightarrow> ('h, handle) action" where
  "UObject_get_property_data this name = UObject_get_property_data_T ''void*'' this name"

definition UObject_get_property :: "string \<Rightarrow> handle \<Rightarrow> wstring \<Rightarrow> ('h, handle) action" where
  "UObject_get_property T this name =
     then_op (UObject_get_property_data_T T this name) (\<lambda>p.
       if p = nullptr then throw Null_Dereference else ret p)"

definition UObject_get_fname_static :: "('h, handle \<Rightarrow> 'h \<Rightarrow> handle \<times> 'h) action" where
  "UObject_get_fname_static =
     local_static UObject_get_fname_fn (\<lambda>v w. w\<lparr>UObject_get_fname_fn := v\<rparr>)
       (then_op UObject_initialize (\<lambda>t. then_op (deref t) (\<lambda>tbl. ret (uobject_get_fname tbl))))"

definition UObject_get_fname :: "handle \<Rightarrow> ('h, handle) action" where
  "UObject_get_fname this =
     then_op UObject_get_fname_static (\<lambda>fn. host_call (E_get_fname this) (fn this))"

text \<open>
  \<^verbatim>\<open>get_full_name\<close>. The loop
  \<^verbatim>\<open>for (auto outer = this->get_outer(); outer != nullptr && outer != this; outer = outer->get_outer())\<close>
  may run forever (the host decides), so \<open>outer_walk\<close> takes a budget of loop tests and
  ends with \<open>Out_Of_Fuel\<close> when it is used up.
\<close>

fun outer_walk :: "nat \<Rightarrow> handle \<Rightarrow> handle \<Rightarrow> wstring \<Rightarrow> ('h, wstring) action" where
  "outer_walk 0 this outer obj_name = throw Out_Of_Fuel"
| "outer_walk (Suc n) this outer obj_name =
     (if outer \<noteq> nullptr \<and> outer \<noteq> this then
        then_op (then_op (UObject_get_fname outer) FName_to_string) (\<lambda>s.
          then_op (UObject_get_outer outer) (\<lambda>outer'.
            outer_walk n this outer' (s @ [dot] @ obj_name)))
      else ret obj_name)"

definition UObject_get_full_name :: "nat \<Rightarrow> handle \<Rightarrow> ('h, wstring) action" where
  "UObject_get_full_name fuel this =
     then_op (UObject_get_class this) (\<lambda>c.
       if c = nullptr then ret []
       else
         then_op (then_op (UObject_get_fname this) FName_to_string) (\<lambda>obj_name.
           then_op (UObject_get_outer this) (\<lambda>outer.
             then_op (outer_walk fuel this outer obj_name) (\<lambda>obj_name'.
               then_op (then_op (UObject_get_fname c) FName_to_string) (\<lambda>class_name.
                 ret (class_name @ [space] @ obj_name'))))))"

subsection \<open>\<^verbatim>\<open>UStruct\<close>\<close>

definition UStruct_get_super_struct_static :: "('h, handle \<Rightarrow> 'h \<Rightarrow> handle \<times> 'h) action" where
  "UStruct_get_super_struct_static =
     local_static UStruct_get_super_struct_fn (\<lambda>v w. w\<lparr>UStruct_get_super_struct_fn := v\<rparr>)
       (then_op UStruct_initialize (\<lambda>t. then_op (deref t) (\<lambda>tbl. ret (ustruct_get_super_struct tbl))))"

definition UStruct_get_super_struct :: "handle \<Rightarrow> ('h, handle) action" where
  "UStruct_get_super_struct this =
     then_op UStruct_get_super_struct_static (\<lambda>fn. host_call (E_get_super_struct this) (fn this))"

definition UStruct_find_function_static :: "('h, handle \<Rightarrow> wstring \<Rightarrow> 'h \<Rightarrow> handle \<times> 'h) action" where
  "UStruct_find_function_static =
     local_static UStruct_find_function_fn (\<lambda>v w. w\<lparr>UStruct_find_function_fn := v\<rparr>)
       (then_op UStruct_initialize (\<lambda>t. then_op (deref t) (\<lambda>tbl. ret (ustruct_find_function tbl))))"

definition UStruct_find_function :: "handle \<Rightarrow> wstring \<Rightarrow> ('h, handle) action" where
  "UStruct_find_function this name =
     then_op UStruct_find_function_static (\<lambda>fn. host_call (E_find_function this name) (fn this name))"

definition UStruct_get_child_properties_static :: "('h, handle \<Rightarrow> 'h \<Rightarrow> handle \<times> 'h) action" where
  "UStruct_get_child_properties_static =
     local_static UStruct_get_child_properties_fn (\<lambda>v w. w\<lparr>UStruct_get_child_properties_fn := v\<rparr>)
       (then_op UStruct_initialize (\<lambda>t. then_op (deref t) (\<lambda>tbl. ret (ustruct_get_child_properties tbl))))"

definition UStruct_get_child_properties :: "handle \<Rightarrow> ('h, handle) action" where
  "UStruct_get_child_properties this =
     then_op UStruct_get_child_properties_static (\<lambda>fn. host_call (E_get_child_properties this) (fn this))"

definition UStruct_get_super :: "handle \<Rightarrow> ('h, handle) action" where
  "UStruct_get_super this = UStruct_get_super_struct this"

subsection \<open>\<^verbatim>\<open>UClass\<close>\<close>

definition UClass_get_class_default_object_static :: "('h, handle \<Rightarrow> 'h \<Rightarrow> handle \<times> 'h) action" where
  "UClass_get_class_default_object_static =
     local_static UClass_get_class_default_object_fn (\<lambda>v w. w\<lparr>UClass_get_class_default_object_fn := v\<rparr>)
       (then_op UClass_initialize (\<lambda>t. then_op (deref t) (\<lambda>tbl. ret (uclass_get_class_default_object tbl))))"

definition UClass_get_class_default_object :: "handle \<Rightarrow> ('h, handle) action" where
  "UClass_get_class_default_object this =
     then_op UClass_get_class_default_object_static (\<lambda>fn. host_call (E_get_class_default_object this) (fn this))"

text \<open>
  The two enumeration functions read their function pointers from
  \<^verbatim>\<open>API::get()->sdk()->uobject_hook\<close>, with no cached table in between.
\<close>

definition UClass_get_objects_matching_activate_static :: "('h, 'h \<Rightarrow> 'h) action" where
  "UClass_get_objects_matching_activate_static =
     local_static get_objects_matching_activate_fn (\<lambda>v w. w\<lparr>get_objects_matching_activate_fn := v\<rparr>)
       (then_op API_get_sdk (\<lambda>d. then_op (deref (uobject_hook d)) (\<lambda>tbl. ret (hook_activate tbl))))"

definition UClass_get_objects_matching_static ::
  "('h, handle \<Rightarrow> handle list option \<Rightarrow> 32 word \<Rightarrow> bool \<Rightarrow> 'h \<Rightarrow> (32 word \<times> handle list) \<times> 'h) action" where
  "UClass_get_objects_matching_static =
     local_static get_objects_matching_fn (\<lambda>v w. w\<lparr>get_objects_matching_fn := v\<rparr>)
       (then_op API_get_sdk (\<lambda>d. then_op (deref (uobject_hook d)) (\<lambda>tbl. ret (hook_get_objects_by_class tbl))))"

text \<open>
  \<^verbatim>\<open>get_objects_matching\<close>: \<^verbatim>\<open>activate_fn()\<close>, the size query, then \<^verbatim>\<open>result.resize(size)\<close>
  (null pointers) and the fill call with \<^verbatim>\<open>result.data()\<close> and \<^verbatim>\<open>size\<close>, whose own count
  is dropped.
\<close>

definition UClass_get_objects_matching :: "handle \<Rightarrow> bool \<Rightarrow> ('h, handle list) action" where
  "UClass_get_objects_matching this allow_default =
     then_op UClass_get_objects_matching_activate_static (\<lambda>activate_fn.
       then_op UClass_get_objects_matching_static (\<lambda>fn.
         then_op (host_call_void E_activate activate_fn) (\<lambda>_.
           then_op (host_call (E_get_objects_by_class this None 0 allow_default)
                      (fn this None 0 allow_default)) (\<lambda>(size, _).
             if size = 0 then ret []
             else
               let result = replicate (unat size) nullptr in
               then_op (host_call (E_get_objects_by_class this (Some result) size allow_default)
                          (fn this (Some result) size allow_default))
                 (\<lambda>(_, written). ret (overwrite result written))))))"

definition UClass_get_first_object_matching_activate_static :: "('h, 'h \<Rightarrow> 'h) action" where
  "UClass_get_first_object_matching_activate_static =
     local_static get_first_object_matching_activate_fn
       (\<lambda>v w. w\<lparr>get_first_object_matching_activate_fn := v\<rparr>)
       (then_op API_get_sdk (\<lambda>d. then_op (deref (uobject_hook d)) (\<lambda>tbl. ret (hook_activate tbl))))"

definition UClass_get_first_object_matching_static ::
  "('h, handle \<Rightarrow> bool \<Rightarrow> 'h \<Rightarrow> handle \<times> 'h) action" where
  "UClass_get_first_object_matching_static =
     local_static get_first_object_matching_fn (\<lambda>v w. w\<lparr>get_first_object_matching_fn := v\<rparr>)
       (then_op API_get_sdk (\<lambda>d. then_op (deref (uobject_hook d))
          (\<lambda>tbl. ret (hook_get_first_object_by_class tbl))))"

definition UClass_get_first_object_matching :: "handle \<Rightarrow> bool \<Rightarrow> ('h, handle) action" where
  "UClass_get_first_object_matching this allow_default =
     then_op UClass_get_first_object_matching_activate_static (\<lambda>activate_fn.
       then_op UClass_get_first_object_matching_static (\<lambda>fn.
         then_op (host_call_void E_activate activate_fn) (\<lambda>_.
           host_call (E_get_first_object_by_class this allow_default) (fn this allow_default))))"

subsection \<open>\<^verbatim>\<open>UFunction\<close>\<close>

definition UFunction_get_native_function_static :: "('h, handle \<Rightarrow> 'h \<Rightarrow> handle \<times> 'h) action" where
  "UFunction_get_native_function_static =
     local_static UFunction_get_native_function_fn (\<lambda>v w. w\<lparr>UFunction_get_native_function_fn := v\<rparr>)
       (then_op UFunction_initialize (\<lambda>t. then_op (deref t) (\<lambda>tbl. ret (ufunction_get_native_function tbl))))"

definition UFunction_get_native_function :: "handle \<Rightarrow> ('h, handle) action" where
  "UFunction_get_native_function this =
     then_op UFunction_get_native_function_static (\<lambda>fn. host_call (E_get_native_function this) (fn this))"

definition UFunction_call :: "handle \<Rightarrow> handle \<Rightarrow> handle \<Rightarrow> ('h, unit) action" where
  "UFunction_call this obj params =
     (if obj = nullptr then ret () else UObject_process_event obj this params)"

subsection \<open>\<^verbatim>\<open>FField\<close>\<close>

definition FField_get_next_static :: "('h, handle \<Rightarrow> 'h \<Rightarrow> handle \<times> 'h) action" where
  "FField_get_next_static =
     local_static FField_get_next_fn (\<lambda>v w. w\<lparr>FField_get_next_fn := v\<rparr>)
       (then_op FField_initialize (\<lambda>t. then_op (deref t) (\<lambda>tbl. ret (ffield_get_next tbl))))"

definition FField_get_next :: "handle \<Rightarrow> ('h, handle) action" where
  "FField_get_next this =
     then_op FField_get_next_static (\<lambda>fn. host_call (E_ffield_get_next this) (fn this))"

definition FField_get_fname_static :: "('h, handle \<Rightarrow> 'h \<Rightarrow> handle \<times> 'h) action" where
  "FField_get_fname_static =
     local_static FField_get_fname_fn (\<lambda>v w. w\<lparr>FField_get_fname_fn := v\<rparr>)
       (then_op FField_initialize (\<lambda>t. then_op (deref t) (\<lambda>tbl. ret (ffield_get_fname tbl))))"

definition FField_get_fname :: "handle \<Rightarrow> ('h, handle) action" where
  "FField_get_fname this =
     then_op FField_get_fname_static (\<lambda>fn. host_call (E_ffield_get_fname this) (fn this))"

definition FField_get_class_static :: "('h, handle \<Rightarrow> 'h \<Rightarrow> handle \<times> 'h) action" where
  "FField_get_class_static =
     local_static FField_get_class_fn (\<lambda>v w. w\<lparr>FField_get_class_fn := v\<rparr>)
       (then_op FField_initialize (\<lambda>t. then_op (deref t) (\<lambda>tbl. ret (ffield_get_class tbl))))"

definition FField_get_class :: "handle \<Rightarrow> ('h, handle) action" where
  "FField_get_class this =
     then_op FField_get_class_static (\<lambda>fn. host_call (E_ffield_get_class this) (fn this))"

subsection \<open>\<^verbatim>\<open>FProperty\<close>\<close>

definition FProperty_get_offset_static :: "('h, handle \<Rightarrow> 'h \<Rightarrow> 32 word \<times> 'h) action" where
  "FProperty_get_offset_static =
     local_static FProperty_get_offset_fn (\<lambda>v w. w\<lparr>FProperty_get_offset_fn := v\<rparr>)
       (then_op FProperty_initialize (\<lambda>t. then_op (deref t) (\<lambda>tbl. ret (fproperty_get_offset tbl))))"

definition FProperty_get_offset :: "handle \<Rightarrow> ('h, 32 word) action" where
  "FProperty_get_offset this =
     then_op FProperty_get_offset_static (\<lambda>fn. host_call (E_get_offset this) (fn this))"

subsection \<open>\<^verbatim>\<open>FFieldClass\<close>\<close>

definition FFieldClass_get_fname_static :: "('h, handle \<Rightarrow> 'h \<Rightarrow> handle \<times> 'h) action" where
  "FFieldClass_get_fname_static =
     local_static FFieldClass_get_fname_fn (\<lambda>v w. w\<lparr>FFieldClass_get_fname_fn := v\<rparr>)
       (then_op FFieldClass_initialize (\<lambda>t. then_op (deref t) (\<lambda>tbl. ret (ffield_class_get_fname tbl))))"

definition FFieldClass_get_fname :: "handle \<Rightarrow> ('h, handle) action" where
  "FFieldClass_get_fname this =
     then_op FFieldClass_get_fname_static (\<lambda>fn. host_call (E_ffield_class_get_fname this) (fn this))"

definition FFieldClass_get_name :: "handle \<Rightarrow> ('h, wstring) action" where
  "FFieldClass_get_name this = then_op (FFieldClass_get_fname this) FName_to_string"

section \<open>A process\<close>

text \<open>
  What the code around the bridge may do, one call after the other: the two static
  functions of the entry point and the public functions of the wrapper structs
  (\<^verbatim>\<open>get_full_name\<close> with the budget of its loop, the templates with the name of their
  type). Every use of a wrapper struct's \<^verbatim>\<open>initialize()\<close> lies in one of these functions.
  The member functions of \<^verbatim>\<open>API\<close> itself (\<^verbatim>\<open>find_uobject\<close>, \<^verbatim>\<open>get_engine\<close>, ...) and
  \<^verbatim>\<open>static_class\<close> read other tables of the descriptor and are left out, and with them
  \<^verbatim>\<open>is_a<T>\<close>, which is \<^verbatim>\<open>is_a\<close> on the result of \<^verbatim>\<open>T::static_class()\<close>; the template
  forms of the two enumeration functions only cast what the plain forms return.
\<close>

datatype 'h call =
  Call_API_initialize "'h UEVR_PluginInitializeParam option"
  | Call_API_get
  | Call_FName_to_string handle
  | Call_UObject_get_class handle
  | Call_UObject_get_outer handle
  | Call_UObject_is_a handle handle
  | Call_UObject_process_event handle handle handle
  | Call_UObject_call_function handle wstring handle
  | Call_UObject_get_property_data_T string handle wstring
  | Call_UObject_get_property_data handle wstring
  | Call_UObject_get_property string handle wstring
  | Call_UObject_get_fname handle
  | Call_UObject_get_full_name nat handle
  | Call_UStruct_get_super_struct handle
  | Call_UStruct_get_super handle
  | Call_UStruct_find_function handle wstring
  | Call_UStruct_get_child_properties handle
  | Call_UClass_get_class_default_object handle
  | Call_UClass_get_objects_matching handle bool
  | Call_UClass_get_first_object_matching handle bool
  | Call_UFunction_call handle handle handle
  | Call_UFunction_get_native_function handle
  | Call_FField_get_next handle
  | Call_FField_get_fname handle
  | Call_FField_get_class handle
  | Call_FProperty_get_offset handle
  | Call_FFieldClass_get_fname handle
  | Call_FFieldClass_get_name handle

text \<open>How an action ended, its value dropped.\<close>

definition ending :: "('h, 'a) action \<Rightarrow> 'h world \<Rightarrow> abort option \<times> 'h world" where
  "ending m w = (case m w of (Inl e, w') \<Rightarrow> (Some e, w') | (Inr _, w') \<Rightarrow> (None, w'))"

fun exec :: "'h call \<Rightarrow> 'h world \<Rightarrow> abort option \<times> 'h world" where
  "exec (Call_API_initialize param) = ending (API_initialize param)"
| "exec Call_API_get = ending API_get"
| "exec (Call_FName_to_string this) = ending (FName_to_string this)"
| "exec (Call_UObject_get_class this) = ending (UObject_get_class this)"
| "exec (Call_UObject_get_outer this) = ending (UObject_get_outer this)"
| "exec (Call_UObject_is_a this cmp) = ending (UObject_is_a this cmp)"
| "exec (Call_UObject_process_event this function params) = ending (UObject_process_event this function params)"
| "exec (Call_UObject_call_function this name params) = ending (UObject_call_function this name params)"
| "exec (Call_UObject_get_property_data_T T this name) = ending (UObject_get_property_data_T T this name)"
| "exec (Call_UObject_get_property_data this name) = ending (UObject_get_property_data this name)"
| "exec (Call_UObject_get_property T this name) = ending (UObject_get_property T this name)"
| "exec (Call_UObject_get_fname this) = ending (UObject_get_fname this)"
| "exec (Call_UObject_get_full_name fuel this) = ending (UObject_get_full_name fuel this)"
| "exec (Call_UStruct_get_super_struct this) = ending (UStruct_get_super_struct this)"
| "exec (Call_UStruct_get_super this) = ending (UStruct_get_super this)"
| "exec (Call_UStruct_find_function this name) = ending (UStruct_find_function this name)"
| "exec (Call_UStruct_get_child_properties this) = ending (UStruct_get_child_properties this)"
| "exec (Call_UClass_get_class_default_object this) = ending (UClass_get_class_default_object this)"
| "exec (Call_UClass_get_objects_matching this allow_default) = ending (UClass_get_objects_matching this allow_default)"
| "exec (Call_UClass_get_first_object_matching this allow_default) = ending (UClass_get_first_object_matching this allow_default)"
| "exec (Call_UFunction_call this obj params) = ending (UFunction_call this obj params)"
| "exec (Call_UFunction_get_native_function this) = ending (UFunction_get_native_function this)"
| "exec (Call_FField_get_next this) = ending (FField_get_next this)"
| "exec (Call_FField_get_fname this) = ending (FField_get_fname this)"
| "exec (Call_FField_get_class this) = ending (FField_get_class this)"
| "exec (Call_FProperty_get_offset this) = ending (FProperty_get_offset this)"
| "exec (Call_FFieldClass_get_fname this) = ending (FFieldClass_get_fname this)"
| "exec (Call_FFieldClass_get_name this) = ending (FFieldClass_get_name this)"

text \<open>
  A run of calls. The caller may catch a \<^verbatim>\<open>std::runtime_error\<close> and go on; a null
  dereference ends the process, and a call that is still in its loop when its budget ends
  is the last thing seen of the process.
\<close>

fun run :: "'h call list \<Rightarrow> 'h world \<Rightarrow> 'h world" where
  "run [] w = w"
| "run (c # cs) w =
     (case exec c w of
        (None, w') \<Rightarrow> run cs w'
      | (Some (Runtime_Error msg), w') \<Rightarrow> run cs w'
      | (Some Null_Dereference, w') \<Rightarrow> w'
      | (Some Out_Of_Fuel, w') \<Rightarrow> w')"

text \<open>How often the observer saw the table of a kind fetched.\<close>

definition fetches :: "kind \<Rightarrow> 'h world \<Rightarrow> nat" where
  "fetches k w = count_list (trace w) (Fetch k)"

text \<open>How often the observer saw the activation function of the object hook called.\<close>

definition activations :: "'h world \<Rightarrow> nat" where
  "activations w = count_list (trace w) E_activate"

section \<open>Properties of worlds\<close>

text \<open>Whether the table of a kind is cached (\<^verbatim>\<open>s_functions != nullptr\<close>).\<close>

fun cached :: "kind \<Rightarrow> 'h world \<Rightarrow> bool" where
  "cached K_FName w = (FName_s_functions w \<noteq> None)"
| "cached K_UObject w = (UObject_s_functions w \<noteq> None)"
| "cached K_UStruct w = (UStruct_s_functions w \<noteq> None)"
| "cached K_UClass w = (UClass_s_functions w \<noteq> None)"
| "cached K_UFunction w = (UFunction_s_functions w \<noteq> None)"
| "cached K_FField w = (FField_s_functions w \<noteq> None)"
| "cached K_FProperty w = (FProperty_s_functions w \<noteq> None)"
| "cached K_FFieldClass w = (FFieldClass_s_functions w \<noteq> None)"

text \<open>\<open>kept w w'\<close>: every table pointer that is cached in \<open>w\<close> is the same in \<open>w'\<close>.\<close>

definition kept :: "'h world \<Rightarrow> 'h world \<Rightarrow> bool" where
  "kept w w' \<longleftrightarrow>
     (FName_s_functions w \<noteq> None \<longrightarrow> FName_s_functions w' = FName_s_functions w)
   \<and> (UObject_s_functions w \<noteq> None \<longrightarrow> UObject_s_functions w' = UObject_s_functions w)
   \<and> (UStruct_s_functions w \<noteq> None \<longrightarrow> UStruct_s_functions w' = UStruct_s_functions w)
   \<and> (UClass_s_functions w \<noteq> None \<longrightarrow> UClass_s_functions w' = UClass_s_functions w)
   \<and> (UFunction_s_functions w \<noteq> None \<longrightarrow> UFunction_s_functions w' = UFunction_s_functions w)
   \<and> (FField_s_functions w \<noteq> None \<longrightarrow> FField_s_functions w' = FField_s_functions w)
   \<and> (FProperty_s_functions w \<noteq> None \<longrightarrow> FProperty_s_functions w' = FProperty_s_functions w)
   \<and> (FFieldClass_s_functions w \<noteq> None \<longrightarrow> FFieldClass_s_functions w' = FFieldClass_s_functions w)"

text \<open>
  \<open>since k w0 w\<close> relates a world \<open>w\<close> to an earlier world \<open>w0\<close> of the same process while
  the process is alive: the cached pointers of \<open>w0\<close> are kept, and the table of kind \<open>k\<close>
  was fetched in between only if it was not cached in \<open>w0\<close> and is cached now, and then
  once. \<open>since_end\<close> is what is left of it when the process has ended on a null pointer.
\<close>

definition since :: "kind \<Rightarrow> 'h world \<Rightarrow> 'h world \<Rightarrow> bool" where
  "since k w0 w \<longleftrightarrow>
     kept w0 w \<and> fetches k w0 \<le> fetches k w
     \<and> fetches k w \<le> fetches k w0 + (if cached k w0 then 0 else if cached k w then 1 else 0)"

definition since_end :: "kind \<Rightarrow> 'h world \<Rightarrow> 'h world \<Rightarrow> bool" where
  "since_end k w0 w \<longleftrightarrow>
     kept w0 w \<and> fetches k w0 \<le> fetches k w
     \<and> fetches k w \<le> fetches k w0 + (if cached k w0 then 0 else 1)"

text \<open>
  \<open>holds_through I Q m\<close>: from a world in \<open>I\<close> the action \<open>m\<close> ends in \<open>I\<close>, or in \<open>Q\<close> if it
  ends on a null pointer.
\<close>

definition holds_through :: "('h world \<Rightarrow> bool) \<Rightarrow> ('h world \<Rightarrow> bool) \<Rightarrow> ('h, 'a) action \<Rightarrow> bool" where
  "holds_through I Q m \<longleftrightarrow>
     (\<forall>w. I w \<longrightarrow> (case m w of (Inl Null_Dereference, w') \<Rightarrow> Q w' | (_, w') \<Rightarrow> I w'))"

section \<open>A host to test with\<close>

text \<open>
  A small host for concrete runs. Its state is the number \<open>s\<close> of live objects of class
  \<open>7\<close>, the objects \<open>1, ..., s\<close>. Object \<open>3\<close> (named C) lies in \<open>2\<close> (B), which lies in \<open>1\<close>
  (A), which has no outer; object \<open>4\<close> (D) is its own outer; object \<open>5\<close> has no class. The
  name handle of an object \<open>x\<close> is \<open>x + 10\<close>, and class \<open>7\<close> is named Kl.
\<close>

definition demo_name :: "handle \<Rightarrow> wstring" where
  "demo_name n =
     (if n = 11 then [65] else if n = 12 then [66] else if n = 13 then [67]
      else if n = 14 then [68] else if n = 17 then [75, 108] else [])"

definition demo_fname :: "nat UEVR_FNameFunctions" where
  "demo_fname =
     \<lparr>fname_to_string = (\<lambda>n buf cap s.
        ((word_of_nat (length (demo_name n)), take (unat cap) (demo_name n @ [0])), s))\<rparr>"

definition demo_uobject :: "nat UEVR_UObjectFunctions" where
  "demo_uobject =
     \<lparr>uobject_get_class = (\<lambda>x s. (if x \<in> {1, 2, 3, 4} then 7 else nullptr, s)),
      uobject_get_outer = (\<lambda>x s. (if x = 3 then 2 else if x = 2 then 1 else if x = 4 then 4 else nullptr, s)),
      uobject_is_a = (\<lambda>x c s. (x \<in> {1, 2, 3, 4} \<and> c = 7, s)),
      uobject_process_event = (\<lambda>x f p s. s),
      uobject_call_function = (\<lambda>x n p s. s),
      uobject_get_property_data = (\<lambda>x n s. (nullptr, s)),
      uobject_get_fname = (\<lambda>x s. (if x = nullptr then nullptr else x + 10, s))\<rparr>"

primrec live :: "nat \<Rightarrow> handle list" where
  "live 0 = []"
| "live (Suc n) = live n @ [word_of_nat (Suc n)]"

definition demo_hook :: "nat UEVR_UObjectHookFunctions" where
  "demo_hook =
     \<lparr>hook_activate = (\<lambda>s. s),
      hook_get_objects_by_class = (\<lambda>c buf cap d s.
        if c = 7 then ((word_of_nat s, take (unat cap) (live s)), s) else ((0, []), s)),
      hook_get_first_object_by_class = (\<lambda>c d s. (if c = 7 \<and> 0 < s then 1 else nullptr, s))\<rparr>"

text \<open>A hook whose host loses one object at every enumeration call.\<close>

definition shrinking_hook :: "nat UEVR_UObjectHookFunctions" where
  "shrinking_hook =
     \<lparr>hook_activate = (\<lambda>s. s),
      hook_get_objects_by_class = (\<lambda>c buf cap d s.
        ((word_of_nat s, take (unat cap) (live s)), s - 1)),
      hook_get_first_object_by_class = (\<lambda>c d s. (if 0 < s then 1 else nullptr, s))\<rparr>"

definition demo_sdk :: "nat UEVR_UObjectHookFunctions \<Rightarrow> nat UEVR_SDKData" where
  "demo_sdk hook =
     \<lparr>fname = Some demo_fname, uobject = Some demo_uobject, ustruct = None, uclass = None,
      ufunction = None, ffield = None, fproperty = None, ffield_class = None,
      uobject_hook = Some hook\<rparr>"

definition demo_param :: "nat UEVR_UObjectHookFunctions \<Rightarrow> nat UEVR_PluginInitializeParam" where
  "demo_param hook = \<lparr>param_functions = None, sdk = Some (demo_sdk hook)\<rparr>"

text \<open>The process after \<^verbatim>\<open>API::initialize\<close> on the test host with three live objects.\<close>

definition demo_world :: "nat UEVR_UObjectHookFunctions \<Rightarrow> nat world" where
  "demo_world hook = snd (API_initialize (Some (demo_param hook)) (process_start 3))"

text \<open>A descriptor with nothing in it.\<close>

definition hollow_param :: "nat UEVR_PluginInitializeParam" where
  "hollow_param = \<lparr>param_functions = None, sdk = None\<rparr>"

text \<open>A descriptor whose \<^verbatim>\<open>sdk\<close> has no table at all.\<close>

definition tableless_param :: "nat UEVR_PluginInitializeParam" where
  "tableless_param =
     \<lparr>param_functions = None,
      sdk = Some \<lparr>fname = None, uobject = None, ustruct = None, uclass = None, ufunction = None,
                  ffield = None, fproperty = None, ffield_class = None, uobject_hook = None\<rparr>\<rparr>"

section \<open>Basic facts\<close>

lemmas action_defs = then_op_def ret_def throw_def deref_def host_call_def host_call_void_def
  fetch_def local_static_def

lemmas entry_defs = process_start_def API_initialize_def API_ctor_def API_get_def API_get_sdk_def

text \<open>The slots of the test host that the runs below call.\<close>

lemma demo_slots:
  "fname_to_string demo_fname = (\<lambda>n buf cap s.
      ((word_of_nat (length (demo_name n)), take (unat cap) (demo_name n @ [0])), s))"
  "uobject_get_class demo_uobject = (\<lambda>x s. (if x \<in> {1, 2, 3, 4} then 7 else nullptr, s))"
  "uobject_get_outer demo_uobject =
     (\<lambda>x s. (if x = 3 then 2 else if x = 2 then 1 else if x = 4 then 4 else nullptr, s))"
  "uobject_get_fname demo_uobject = (\<lambda>x s. (if x = nullptr then nullptr else x + 10, s))"
  "hook_activate demo_hook = (\<lambda>s. s)"
  "hook_get_objects_by_class demo_hook = (\<lambda>c buf cap d s.
      if c = 7 then ((word_of_nat s, take (unat cap) (live s)), s) else ((0, []), s))"
  "hook_get_first_object_by_class demo_hook = (\<lambda>c d s. (if c = 7 \<and> 0 < s then 1 else nullptr, s))"
  "hook_activate shrinking_hook = (\<lambda>s. s)"
  "hook_get_objects_by_class shrinking_hook = (\<lambda>c buf cap d s.
      ((word_of_nat s, take (unat cap) (live s)), s - 1))"
  by (simp_all add: demo_fname_def demo_uobject_def demo_hook_def shrinking_hook_def)

lemmas demo_defs = demo_world_def demo_param_def demo_sdk_def demo_slots demo_name_def
  hollow_param_def tableless_param_def entry_defs

lemmas name_defs = FName_to_string_def FName_to_string_static_def FName_initialize_def

lemmas object_defs = UObject_get_class_def UObject_get_class_static_def
  UObject_get_outer_def UObject_get_outer_static_def
  UObject_get_fname_def UObject_get_fname_static_def UObject_initialize_def

lemmas enumeration_defs = UClass_get_objects_matching_activate_static_def
  UClass_get_objects_matching_static_def UClass_get_first_object_matching_activate_static_def
  UClass_get_first_object_matching_static_def

lemma length_overwrite: "length (overwrite buf written) = length buf"
  by (simp add: overwrite_def)

lemma pair_of_fst: "fst p = a \<Longrightarrow> p = (a, snd p)"
  by auto

lemma then_op_Inr: "m w = (Inr x, w') \<Longrightarrow> then_op m f w = f x w'"
  by (simp add: then_op_def)

section \<open>The entry point\<close>

text \<open>
  Claim C5 says that \<^verbatim>\<open>initialize\<close> raises ``already initialized'' on any later call. The
  test for a null descriptor comes first in the code: a later call with a null descriptor
  raises ``param is null''.
\<close>

theorem initialize_null_when_initialized:
  "s_instance (demo_world demo_hook) \<noteq> None
   \<and> fst (API_initialize None (demo_world demo_hook)) = Inl (Runtime_Error ''param is null'')
   \<and> fst (API_initialize None (demo_world demo_hook)) \<noteq> Inl (Runtime_Error ''API already initialized'')"
  by (simp add: demo_world_def entry_defs)

text \<open>
  Claim C5, amended. \<^verbatim>\<open>initialize\<close> with a null descriptor raises ``param is null''
  whatever the state. With a descriptor it constructs the singleton if there is none, and
  raises ``API already initialized'' if there is one. \<^verbatim>\<open>get\<close> raises
  ``API not initialized'' if there is no singleton and returns the singleton otherwise.
  Whenever one of them raises, the state, and with it the singleton, is as before.
\<close>

theorem API_initialize_get_cases:
  "API_initialize None w = (Inl (Runtime_Error ''param is null''), w)
   \<and> (s_instance w = None \<longrightarrow>
         API_initialize (Some p) w = (Inr (API_ctor p), w\<lparr>s_instance := Some (API_ctor p)\<rparr>)
         \<and> API_get w = (Inl (Runtime_Error ''API not initialized''), w))
   \<and> (s_instance w = Some a \<longrightarrow>
         API_initialize (Some p) w = (Inl (Runtime_Error ''API already initialized''), w)
         \<and> API_get w = (Inr a, w))"
  by (simp add: API_initialize_def API_get_def)

theorem API_initialize_get_cases_witness:
  "s_instance (process_start (3::nat)) = None
   \<and> API_initialize (Some (demo_param demo_hook)) (process_start 3) =
       (Inr (API_ctor (demo_param demo_hook)), demo_world demo_hook)
   \<and> API_get (process_start (3::nat)) = (Inl (Runtime_Error ''API not initialized''), process_start 3)
   \<and> s_instance (demo_world demo_hook) = Some (API_ctor (demo_param demo_hook))
   \<and> API_initialize (Some hollow_param) (demo_world demo_hook) =
       (Inl (Runtime_Error ''API already initialized''), demo_world demo_hook)
   \<and> API_get (demo_world demo_hook) = (Inr (API_ctor (demo_param demo_hook)), demo_world demo_hook)"
proof -
  have a: "s_instance (process_start (3::nat)) = None"
    by (simp add: process_start_def)
  have b: "s_instance (demo_world demo_hook) = Some (API_ctor (demo_param demo_hook))"
    by (simp add: demo_world_def API_initialize_def process_start_def)
  have c: "demo_world demo_hook = (process_start 3)\<lparr>s_instance := Some (API_ctor (demo_param demo_hook))\<rparr>"
    by (simp add: demo_world_def API_initialize_def process_start_def)
  show ?thesis
    using API_initialize_get_cases [of "process_start 3" "demo_param demo_hook"]
      API_initialize_get_cases [of "demo_world demo_hook" hollow_param "API_ctor (demo_param demo_hook)"]
      a b c
    by simp
qed

text \<open>
  Claim C10. \<^verbatim>\<open>initialize\<close> looks at nothing in the descriptor: with no singleton yet it
  succeeds for every descriptor, and the singleton holds the descriptor and the \<^verbatim>\<open>sdk\<close>
  pointer read from it, null or not. A descriptor without \<^verbatim>\<open>sdk\<close>, or without the table
  of a kind, fails only when a wrapper of that kind is first used, on the null pointer.
\<close>

theorem initialize_checks_nothing:
  "(s_instance w = None \<longrightarrow>
      API_initialize (Some p) w =
        (Inr \<lparr>m_param = p, m_sdk = sdk p\<rparr>, w\<lparr>s_instance := Some \<lparr>m_param = p, m_sdk = sdk p\<rparr>\<rparr>))
   \<and> (s_instance w = None \<and> FName_to_string_fn w = None \<and> FName_s_functions w = None
        \<and> (sdk p = None \<or> (\<exists>d. sdk p = Some d \<and> fname d = None)) \<longrightarrow>
      fst (FName_to_string this (snd (API_initialize (Some p) w))) = Inl Null_Dereference)
   \<and> (s_instance w = None \<and> UObject_get_class_fn w = None \<and> UObject_s_functions w = None
        \<and> (sdk p = None \<or> (\<exists>d. sdk p = Some d \<and> uobject d = None)) \<longrightarrow>
      fst (UObject_get_class this (snd (API_initialize (Some p) w))) = Inl Null_Dereference)"
  by (auto simp: entry_defs name_defs object_defs action_defs)

theorem initialize_checks_nothing_witness:
  "fst (API_initialize (Some hollow_param) (process_start (3::nat))) =
       Inr \<lparr>m_param = hollow_param, m_sdk = None\<rparr>
   \<and> fst (FName_to_string 17 (snd (API_initialize (Some hollow_param) (process_start 3)))) =
       Inl Null_Dereference
   \<and> fst (UObject_get_class 3 (snd (API_initialize (Some tableless_param) (process_start 3)))) =
       Inl Null_Dereference"
proof -
  have a: "s_instance (process_start (3::nat)) = None" "FName_to_string_fn (process_start (3::nat)) = None"
    "FName_s_functions (process_start (3::nat)) = None" "UObject_get_class_fn (process_start (3::nat)) = None"
    "UObject_s_functions (process_start (3::nat)) = None"
    by (simp_all add: process_start_def)
  have b: "sdk hollow_param = None"
    "\<exists>d. sdk tableless_param = Some d \<and> uobject d = None"
    by (simp_all add: hollow_param_def tableless_param_def)
  note t1 = initialize_checks_nothing [of "process_start 3" hollow_param 17]
  note t2 = initialize_checks_nothing [of "process_start 3" tableless_param 3]
  have "fst (API_initialize (Some hollow_param) (process_start (3::nat))) =
      Inr \<lparr>m_param = hollow_param, m_sdk = None\<rparr>"
    using t1 a(1) b(1) by simp
  moreover have "fst (FName_to_string 17 (snd (API_initialize (Some hollow_param) (process_start (3::nat))))) =
      Inl Null_Dereference"
    using t1 a b(1) by blast
  moreover have "fst (UObject_get_class 3 (snd (API_initialize (Some tableless_param) (process_start (3::nat))))) =
      Inl Null_Dereference"
    using t2 a b(2) by blast
  ultimately show ?thesis
    by blast
qed

section \<open>Names\<close>

text \<open>
  Claim C1. Once \<^verbatim>\<open>to_string\<close> has its function pointer \<open>fn\<close>, it calls \<open>fn\<close> with a null
  destination and length \<open>0\<close>, which answers the count \<open>n\<close>. If \<open>n\<close> is \<open>0\<close> it returns the
  empty string and that was the only call. Otherwise it calls \<open>fn\<close> once more, with a buffer
  of \<open>n\<close> characters and the length \<open>n + 1\<close> (the sum of the code, in \<^verbatim>\<open>unsigned int\<close>), and
  returns that buffer as the host left it: a string of \<open>n\<close> characters.
\<close>

theorem FName_to_string_two_calls:
  assumes "FName_to_string_static w = (Inr fn, w1)"
    and "fn this None 0 (host w1) = ((n, written0), h1)"
  shows "(n = 0 \<longrightarrow>
            FName_to_string this w =
              (Inr [], w1\<lparr>host := h1, trace := trace w1 @ [E_to_string this None 0]\<rparr>))
       \<and> (n \<noteq> 0 \<longrightarrow>
            (case fn this (Some (replicate (unat n) 0)) (n + 1) h1 of
               ((n2, written), h2) \<Rightarrow>
                 FName_to_string this w =
                   (Inr (overwrite (replicate (unat n) 0) written),
                    w1\<lparr>host := h2,
                       trace := trace w1 @ [E_to_string this None 0,
                                  E_to_string this (Some (replicate (unat n) 0)) (n + 1)]\<rparr>)
                 \<and> length (overwrite (replicate (unat n) 0) written) = unat n))"
  using assms
  by (simp add: FName_to_string_def action_defs length_overwrite Let_def split: prod.splits)

theorem FName_to_string_two_calls_witness:
  "fst (FName_to_string 17 (demo_world demo_hook)) = Inr [75, 108]
   \<and> trace (snd (FName_to_string 17 (demo_world demo_hook))) =
       [Fetch K_FName, E_to_string 17 None 0, E_to_string 17 (Some [0, 0]) 3]
   \<and> FName_to_string 18 (demo_world demo_hook) =
       (Inr [], (snd (FName_to_string_static (demo_world demo_hook)))
                  \<lparr>host := 3, trace := [Fetch K_FName, E_to_string 18 None 0]\<rparr>)"
proof -
  let ?w = "demo_world demo_hook"
  let ?w1 = "snd (FName_to_string_static ?w)"
  have a: "FName_to_string_static ?w = (Inr (fname_to_string demo_fname), ?w1)"
    by (rule pair_of_fst) (simp add: name_defs action_defs demo_defs)
  have h: "host ?w1 = 3" "trace ?w1 = [Fetch K_FName]"
    by (simp_all add: name_defs action_defs demo_defs)
  have b: "fname_to_string demo_fname 17 None 0 (host ?w1) = ((2, []), 3)"
    "fname_to_string demo_fname 18 None 0 (host ?w1) = ((0, []), 3)"
    by (simp_all add: h) (simp_all add: demo_defs)
  have "unat (2::32 word) = 2"
    by simp
  then have d: "replicate (unat (2::32 word)) (0::wchar) = [0, 0]"
    by (simp add: eval_nat_numeral)
  have c: "fname_to_string demo_fname 17 (Some [0, 0]) 3 3 = ((2, [75, 108, 0]), 3)"
    by (simp add: demo_defs)
  show ?thesis
    using FName_to_string_two_calls [OF a b(1)] FName_to_string_two_calls [OF a b(2)] c d h
    by (simp add: overwrite_def)
qed

section \<open>Enumeration\<close>

text \<open>
  \<^verbatim>\<open>get_objects_matching\<close> from the point where its two statics hold \<open>activate_fn\<close> and
  \<open>fn\<close>: the activation, the size query, and for a count other than \<open>0\<close> the fill call.
\<close>

lemma get_objects_matching_run:
  assumes "UClass_get_objects_matching_activate_static w = (Inr activate_fn, w1)"
    and "UClass_get_objects_matching_static w1 = (Inr fn, w2)"
    and "fn this None 0 allow_default (activate_fn (host w2)) = ((n, written0), h1)"
  shows "n = 0 \<Longrightarrow>
           UClass_get_objects_matching this allow_default w =
             (Inr [], w2\<lparr>host := h1,
                        trace := trace w2 @ [E_activate, E_get_objects_by_class this None 0 allow_default]\<rparr>)"
    and "n \<noteq> 0 \<Longrightarrow> fn this (Some (replicate (unat n) nullptr)) n allow_default h1 = ((n2, written), h2) \<Longrightarrow>
           UClass_get_objects_matching this allow_default w =
             (Inr (overwrite (replicate (unat n) nullptr) written),
              w2\<lparr>host := h2,
                 trace := trace w2 @ [E_activate, E_get_objects_by_class this None 0 allow_default,
                   E_get_objects_by_class this (Some (replicate (unat n) nullptr)) n allow_default]\<rparr>)"
  using assms
  by (simp_all add: UClass_get_objects_matching_def action_defs Let_def split: prod.splits)

lemma get_first_object_matching_run:
  assumes "UClass_get_first_object_matching_activate_static w = (Inr activate_fn, w1)"
    and "UClass_get_first_object_matching_static w1 = (Inr fn, w2)"
  shows "UClass_get_first_object_matching this allow_default w =
           (Inr (fst (fn this allow_default (activate_fn (host w2)))),
            w2\<lparr>host := snd (fn this allow_default (activate_fn (host w2))),
               trace := trace w2 @ [E_activate, E_get_first_object_by_class this allow_default]\<rparr>)"
  using assms
  by (simp add: UClass_get_first_object_matching_def action_defs split: prod.splits)

text \<open>The statics of the enumeration functions are set without anything the observer logs.\<close>

lemma hook_static_trace:
  assumes "\<And>v w. trace (wr v w) = trace w"
  shows "trace (snd (local_static rd wr
           (then_op API_get_sdk (\<lambda>d. then_op (deref (uobject_hook d)) (\<lambda>tbl. ret (sel tbl)))) w)) = trace w"
  using assms
  by (simp add: action_defs API_get_sdk_def API_get_def split: option.splits)

lemma hook_statics_trace:
  "trace (snd (UClass_get_objects_matching_activate_static w)) = trace w"
  "trace (snd (UClass_get_objects_matching_static w)) = trace w"
  "trace (snd (UClass_get_first_object_matching_activate_static w)) = trace w"
  "trace (snd (UClass_get_first_object_matching_static w)) = trace w"
  by (simp_all add: enumeration_defs hook_static_trace)

text \<open>The statics of the test host, on the world after \<^verbatim>\<open>API::initialize\<close>.\<close>

lemma demo_enumeration_statics:
  "UClass_get_objects_matching_activate_static (demo_world hook) =
     (Inr (hook_activate hook), snd (UClass_get_objects_matching_activate_static (demo_world hook)))"
  "UClass_get_objects_matching_static (snd (UClass_get_objects_matching_activate_static (demo_world hook))) =
     (Inr (hook_get_objects_by_class hook),
      snd (UClass_get_objects_matching_static (snd (UClass_get_objects_matching_activate_static (demo_world hook)))))"
  "host (snd (UClass_get_objects_matching_static (snd (UClass_get_objects_matching_activate_static (demo_world hook))))) = 3"
  "trace (snd (UClass_get_objects_matching_static (snd (UClass_get_objects_matching_activate_static (demo_world hook))))) = []"
  by (rule pair_of_fst, simp add: enumeration_defs action_defs demo_defs,
      rule pair_of_fst, simp add: enumeration_defs action_defs demo_defs)
     (simp_all add: enumeration_defs action_defs demo_defs)

lemma live_3: "live 3 = [1, 2, 3]"
  by (simp add: eval_nat_numeral)

lemma replicate_3: "replicate (unat (3::32 word)) x = [x, x, x]"
proof -
  have "unat (3::32 word) = 3"
    by simp
  then show ?thesis
    by (simp add: eval_nat_numeral)
qed

lemma replicate_2: "replicate (unat (2::32 word)) x = [x, x]"
proof -
  have "unat (2::32 word) = 2"
    by simp
  then show ?thesis
    by (simp add: eval_nat_numeral)
qed

text \<open>
  Claim C2. Once \<^verbatim>\<open>get_objects_matching\<close> has its two function pointers, it activates the
  object hook and calls the enumeration function \<open>fn\<close> with a null buffer and capacity \<open>0\<close>,
  which answers the count \<open>n\<close>. If \<open>n\<close> is \<open>0\<close> it returns the empty sequence, and the size
  query was the only call of \<open>fn\<close>. Otherwise there are exactly two calls of \<open>fn\<close>, the size
  query and the fill call with a buffer of \<open>n\<close> elements and the capacity \<open>n\<close>, and the
  sequence returned has \<open>n\<close> elements.
\<close>

theorem get_objects_matching_two_calls:
  assumes "UClass_get_objects_matching_activate_static w = (Inr activate_fn, w1)"
    and "UClass_get_objects_matching_static w1 = (Inr fn, w2)"
    and "fn this None 0 allow_default (activate_fn (host w2)) = ((n, written0), h1)"
  shows "(n = 0 \<longrightarrow>
           UClass_get_objects_matching this allow_default w =
             (Inr [], w2\<lparr>host := h1,
                        trace := trace w2 @ [E_activate, E_get_objects_by_class this None 0 allow_default]\<rparr>))
       \<and> (n \<noteq> 0 \<longrightarrow>
            (case fn this (Some (replicate (unat n) nullptr)) n allow_default h1 of
               ((n2, written), h2) \<Rightarrow>
                 UClass_get_objects_matching this allow_default w =
                   (Inr (overwrite (replicate (unat n) nullptr) written),
                    w2\<lparr>host := h2,
                       trace := trace w2 @ [E_activate, E_get_objects_by_class this None 0 allow_default,
                         E_get_objects_by_class this (Some (replicate (unat n) nullptr)) n allow_default]\<rparr>)
                 \<and> length (overwrite (replicate (unat n) nullptr) written) = unat n))"
  using get_objects_matching_run [OF assms]
  by (auto simp: length_overwrite split: prod.splits)

theorem get_objects_matching_two_calls_witness:
  "fst (UClass_get_objects_matching 7 False (demo_world demo_hook)) = Inr [1, 2, 3]
   \<and> trace (snd (UClass_get_objects_matching 7 False (demo_world demo_hook))) =
       [E_activate, E_get_objects_by_class 7 None 0 False,
        E_get_objects_by_class 7 (Some [nullptr, nullptr, nullptr]) 3 False]
   \<and> fst (UClass_get_objects_matching 8 False (demo_world demo_hook)) = Inr []
   \<and> trace (snd (UClass_get_objects_matching 8 False (demo_world demo_hook))) =
       [E_activate, E_get_objects_by_class 8 None 0 False]"
proof -
  note s = demo_enumeration_statics [of demo_hook]
  have q7: "hook_get_objects_by_class demo_hook 7 None 0 False (hook_activate demo_hook
      (host (snd (UClass_get_objects_matching_static
        (snd (UClass_get_objects_matching_activate_static (demo_world demo_hook))))))) = ((3, []), 3)"
    unfolding s(3) by (simp add: demo_slots)
  have q8: "hook_get_objects_by_class demo_hook 8 None 0 False (hook_activate demo_hook
      (host (snd (UClass_get_objects_matching_static
        (snd (UClass_get_objects_matching_activate_static (demo_world demo_hook))))))) = ((0, []), 3)"
    unfolding s(3) by (simp add: demo_slots)
  have f7: "hook_get_objects_by_class demo_hook 7 (Some [nullptr, nullptr, nullptr]) 3 False 3 = ((3, [1, 2, 3]), 3)"
    by (simp add: demo_slots live_3)
  show ?thesis
    using get_objects_matching_two_calls [OF s(1) s(2) q7, unfolded replicate_3]
      get_objects_matching_two_calls [OF s(1) s(2) q8] f7 s(4)
    by (simp add: overwrite_def)
qed

text \<open>
  Claim C9. The count that the fill call answers is not used: when the size query answers
  \<open>n\<close> other than \<open>0\<close>, the sequence returned is the buffer of \<open>n\<close> null pointers with
  whatever the fill call stored into it, and has \<open>n\<close> elements, whatever count \<open>n2\<close> the fill
  call reports.
\<close>

theorem get_objects_matching_length:
  assumes "UClass_get_objects_matching_activate_static w = (Inr activate_fn, w1)"
    and "UClass_get_objects_matching_static w1 = (Inr fn, w2)"
    and "fn this None 0 allow_default (activate_fn (host w2)) = ((n, written0), h1)"
    and "n \<noteq> 0"
    and "fn this (Some (replicate (unat n) nullptr)) n allow_default h1 = ((n2, written), h2)"
  shows "fst (UClass_get_objects_matching this allow_default w) =
           Inr (overwrite (replicate (unat n) nullptr) written)
       \<and> length (overwrite (replicate (unat n) nullptr) written) = unat n"
  using get_objects_matching_run(2) [OF assms]
  by (simp add: length_overwrite)

text \<open>
  On the host that loses an object at every call the size query answers \<open>3\<close> and the fill
  call answers \<open>2\<close>; three elements come back, the last one the null pointer of the buffer.
\<close>

theorem get_objects_matching_length_witness:
  "fst (UClass_get_objects_matching 7 False (demo_world shrinking_hook)) = Inr [1, 2, nullptr]
   \<and> fst (fst (hook_get_objects_by_class shrinking_hook 7 None 0 False 3)) = 3
   \<and> fst (fst (hook_get_objects_by_class shrinking_hook 7 (Some [nullptr, nullptr, nullptr]) 3 False 2)) = 2"
proof -
  note s = demo_enumeration_statics [of shrinking_hook]
  have q: "hook_get_objects_by_class shrinking_hook 7 None 0 False (hook_activate shrinking_hook
      (host (snd (UClass_get_objects_matching_static
        (snd (UClass_get_objects_matching_activate_static (demo_world shrinking_hook))))))) = ((3, []), 2)"
    unfolding s(3) by (simp add: demo_slots)
  have n: "(3::32 word) \<noteq> 0"
    by simp
  have "live 2 = [1, 2]"
    by (simp add: eval_nat_numeral)
  then have f: "hook_get_objects_by_class shrinking_hook 7 (Some (replicate (unat (3::32 word)) nullptr)) 3 False 2
      = ((2, [1, 2]), 1)"
    unfolding replicate_3 by (simp add: demo_slots)
  have "fst (UClass_get_objects_matching 7 False (demo_world shrinking_hook)) = Inr [1, 2, nullptr]"
    using get_objects_matching_length [OF s(1) s(2) q n f, unfolded replicate_3]
    by (simp add: overwrite_def)
  moreover have "fst (fst (hook_get_objects_by_class shrinking_hook 7 None 0 False 3)) = 3"
    "fst (fst (hook_get_objects_by_class shrinking_hook 7 (Some [nullptr, nullptr, nullptr]) 3 False 2)) = 2"
    by (simp_all add: demo_slots)
  ultimately show ?thesis
    by simp
qed

text \<open>
  Claim C7 says that the activation is called once per process. The code calls
  \<^verbatim>\<open>activate_fn()\<close> in every enumeration call: two calls of \<^verbatim>\<open>get_first_object_matching\<close>
  activate twice.
\<close>

theorem activation_twice:
  "activations (run [Call_UClass_get_first_object_matching 7 False,
                     Call_UClass_get_first_object_matching 7 False] (demo_world demo_hook)) = 2"
  by (simp add: ending_def UClass_get_first_object_matching_def enumeration_defs action_defs
      demo_defs activations_def)

text \<open>
  One pass over the static of an enumeration function: a static that is set is returned
  as it is, in the same state, whatever the entry point holds; a pass that yields a
  pointer leaves the static set to it; a pass that fails leaves the state as it was.
\<close>

lemma enumeration_static_set:
  "get_objects_matching_activate_fn w = Some a \<Longrightarrow>
     UClass_get_objects_matching_activate_static w = (Inr a, w)"
  "get_objects_matching_fn w = Some f \<Longrightarrow> UClass_get_objects_matching_static w = (Inr f, w)"
  "get_first_object_matching_activate_fn w = Some a \<Longrightarrow>
     UClass_get_first_object_matching_activate_static w = (Inr a, w)"
  "get_first_object_matching_fn w = Some g \<Longrightarrow> UClass_get_first_object_matching_static w = (Inr g, w)"
  by (simp_all add: enumeration_defs local_static_def)

lemma hook_static_sets:
  assumes "\<And>v w. rd (wr v w) = v"
    and "local_static rd wr
           (then_op API_get_sdk (\<lambda>d. then_op (deref (uobject_hook d)) (\<lambda>tbl. ret (sel tbl)))) w = (Inr f, w')"
  shows "rd w' = Some f"
  using assms
  by (auto simp: action_defs API_get_sdk_def API_get_def split: option.splits)

lemma enumeration_static_sets:
  "UClass_get_objects_matching_activate_static w = (Inr a, w') \<Longrightarrow>
     get_objects_matching_activate_fn w' = Some a"
  "UClass_get_objects_matching_static w = (Inr f, w') \<Longrightarrow> get_objects_matching_fn w' = Some f"
  "UClass_get_first_object_matching_activate_static w = (Inr a, w') \<Longrightarrow>
     get_first_object_matching_activate_fn w' = Some a"
  "UClass_get_first_object_matching_static w = (Inr g, w') \<Longrightarrow> get_first_object_matching_fn w' = Some g"
  unfolding enumeration_defs
  by (erule hook_static_sets [rotated], simp)+

lemma hook_static_fails:
  assumes "local_static rd wr
           (then_op API_get_sdk (\<lambda>d. then_op (deref (uobject_hook d)) (\<lambda>tbl. ret (sel tbl)))) w = (Inl e, w')"
  shows "w' = w"
  using assms
  by (auto simp: action_defs API_get_sdk_def API_get_def split: option.splits)

lemma enumeration_static_fails:
  "UClass_get_objects_matching_activate_static w = (Inl e, w') \<Longrightarrow> w' = w"
  "UClass_get_objects_matching_static w = (Inl e, w') \<Longrightarrow> w' = w"
  "UClass_get_first_object_matching_activate_static w = (Inl e, w') \<Longrightarrow> w' = w"
  "UClass_get_first_object_matching_static w = (Inl e, w') \<Longrightarrow> w' = w"
  unfolding enumeration_defs
  by (erule hook_static_fails)+

lemma hook_static_other:
  assumes "\<And>v w. g (wr v w) = g w"
  shows "g (snd (local_static rd wr
           (then_op API_get_sdk (\<lambda>d. then_op (deref (uobject_hook d)) (\<lambda>tbl. ret (sel tbl)))) w)) = g w"
  using assms
  by (simp add: action_defs API_get_sdk_def API_get_def split: option.splits)

lemma enumeration_static_other:
  "get_objects_matching_activate_fn (snd (UClass_get_objects_matching_static w)) =
     get_objects_matching_activate_fn w"
  "get_first_object_matching_activate_fn (snd (UClass_get_first_object_matching_static w)) =
     get_first_object_matching_activate_fn w"
  by (simp_all add: enumeration_defs hook_static_other)

text \<open>An enumeration call whose statics yield both pointers.\<close>

lemma get_objects_matching_activates:
  assumes a: "UClass_get_objects_matching_activate_static w = (Inr activate_fn, wa)"
    and f: "UClass_get_objects_matching_static wa = (Inr fn, wb)"
  shows "\<exists>es. trace (snd (UClass_get_objects_matching this allow_default w)) = trace w @ E_activate # es
            \<and> es \<noteq> [] \<and> E_activate \<notin> set es"
    and "activations (snd (UClass_get_objects_matching this allow_default w)) = Suc (activations w)"
    and "get_objects_matching_activate_fn (snd (UClass_get_objects_matching this allow_default w)) =
           Some activate_fn"
    and "get_objects_matching_fn (snd (UClass_get_objects_matching this allow_default w)) = Some fn"
proof -
  have t: "trace wb = trace w"
    using a f hook_statics_trace(1) [of w] hook_statics_trace(2) [of wa] by simp
  have sa: "get_objects_matching_activate_fn wb = Some activate_fn"
    using enumeration_static_sets(1) [OF a] enumeration_static_other(1) [of wa] f by simp
  have sf: "get_objects_matching_fn wb = Some fn"
    using f by (rule enumeration_static_sets(2))
  obtain n written0 h1 where q: "fn this None 0 allow_default (activate_fn (host wb)) = ((n, written0), h1)"
    by (metis prod.exhaust)
  obtain n2 written h2 where r: "fn this (Some (replicate (unat n) nullptr)) n allow_default h1 = ((n2, written), h2)"
    by (metis prod.exhaust)
  note run = get_objects_matching_run(1) [OF a f q] get_objects_matching_run(2) [OF a f q _ r]
  show "\<exists>es. trace (snd (UClass_get_objects_matching this allow_default w)) = trace w @ E_activate # es
            \<and> es \<noteq> [] \<and> E_activate \<notin> set es"
    using run t by (cases "n = 0") auto
  show "activations (snd (UClass_get_objects_matching this allow_default w)) = Suc (activations w)"
    using run t by (cases "n = 0") (auto simp: activations_def)
  show "get_objects_matching_activate_fn (snd (UClass_get_objects_matching this allow_default w)) =
           Some activate_fn"
    using run sa by (cases "n = 0") auto
  show "get_objects_matching_fn (snd (UClass_get_objects_matching this allow_default w)) = Some fn"
    using run sf by (cases "n = 0") auto
qed

lemma get_first_object_matching_activates:
  assumes a: "UClass_get_first_object_matching_activate_static w = (Inr activate_fn, wa)"
    and f: "UClass_get_first_object_matching_static wa = (Inr fn, wb)"
  shows "trace (snd (UClass_get_first_object_matching this allow_default w))
           = trace w @ [E_activate, E_get_first_object_by_class this allow_default]"
    and "activations (snd (UClass_get_first_object_matching this allow_default w)) = Suc (activations w)"
    and "get_first_object_matching_activate_fn (snd (UClass_get_first_object_matching this allow_default w)) =
           Some activate_fn"
    and "get_first_object_matching_fn (snd (UClass_get_first_object_matching this allow_default w)) = Some fn"
proof -
  have t: "trace wb = trace w"
    using a f hook_statics_trace(3) [of w] hook_statics_trace(4) [of wa] by simp
  have sa: "get_first_object_matching_activate_fn wb = Some activate_fn"
    using enumeration_static_sets(3) [OF a] enumeration_static_other(2) [of wa] f by simp
  have sf: "get_first_object_matching_fn wb = Some fn"
    using f by (rule enumeration_static_sets(4))
  note run = get_first_object_matching_run [OF a f]
  show "trace (snd (UClass_get_first_object_matching this allow_default w))
           = trace w @ [E_activate, E_get_first_object_by_class this allow_default]"
    using run t by simp
  show "activations (snd (UClass_get_first_object_matching this allow_default w)) = Suc (activations w)"
    using run t by (simp add: activations_def)
  show "get_first_object_matching_activate_fn (snd (UClass_get_first_object_matching this allow_default w)) =
           Some activate_fn"
    using run sa by simp
  show "get_first_object_matching_fn (snd (UClass_get_first_object_matching this allow_default w)) = Some fn"
    using run sf by simp
qed

text \<open>An enumeration call one of whose statics cannot be initialised.\<close>

lemma get_objects_matching_fails:
  "UClass_get_objects_matching_activate_static w = (Inl e, wa) \<Longrightarrow>
     UClass_get_objects_matching this allow_default w = (Inl e, w)"
  "UClass_get_objects_matching_activate_static w = (Inr activate_fn, wa) \<Longrightarrow>
     UClass_get_objects_matching_static wa = (Inl e, wb) \<Longrightarrow>
     UClass_get_objects_matching this allow_default w = (Inl e, wa) \<and> trace wa = trace w"
proof -
  show "UClass_get_objects_matching this allow_default w = (Inl e, w)"
    if "UClass_get_objects_matching_activate_static w = (Inl e, wa)"
    using that enumeration_static_fails(1) [OF that]
    by (simp add: UClass_get_objects_matching_def then_op_def)
  show "UClass_get_objects_matching this allow_default w = (Inl e, wa) \<and> trace wa = trace w"
    if a: "UClass_get_objects_matching_activate_static w = (Inr activate_fn, wa)"
      and f: "UClass_get_objects_matching_static wa = (Inl e, wb)"
    using a f enumeration_static_fails(2) [OF f] hook_statics_trace(1) [of w]
    by (simp add: UClass_get_objects_matching_def then_op_def)
qed

lemma get_first_object_matching_fails:
  "UClass_get_first_object_matching_activate_static w = (Inl e, wa) \<Longrightarrow>
     UClass_get_first_object_matching this allow_default w = (Inl e, w)"
  "UClass_get_first_object_matching_activate_static w = (Inr activate_fn, wa) \<Longrightarrow>
     UClass_get_first_object_matching_static wa = (Inl e, wb) \<Longrightarrow>
     UClass_get_first_object_matching this allow_default w = (Inl e, wa) \<and> trace wa = trace w"
proof -
  show "UClass_get_first_object_matching this allow_default w = (Inl e, w)"
    if "UClass_get_first_object_matching_activate_static w = (Inl e, wa)"
    using that enumeration_static_fails(3) [OF that]
    by (simp add: UClass_get_first_object_matching_def then_op_def)
  show "UClass_get_first_object_matching this allow_default w = (Inl e, wa) \<and> trace wa = trace w"
    if a: "UClass_get_first_object_matching_activate_static w = (Inr activate_fn, wa)"
      and f: "UClass_get_first_object_matching_static wa = (Inl e, wb)"
    using a f enumeration_static_fails(4) [OF f] hook_statics_trace(3) [of w]
    by (simp add: UClass_get_first_object_matching_def then_op_def)
qed

text \<open>
  Claim C7, amended. Every call of \<^verbatim>\<open>get_objects_matching\<close> or
  \<^verbatim>\<open>get_first_object_matching\<close> whose two statics yield their function pointers calls the
  activation function exactly once, before its calls of the enumeration function, and
  leaves both statics set to these pointers. A call whose first or second static cannot
  be initialised ends with that error and calls nothing: no activation, no enumeration.
  What is lazy, and done once per enumeration function, is the lookup of the function
  pointers: a static that is set is returned as it is, with no new lookup and no change
  of state, whatever the entry point holds by then.
\<close>

theorem activation_on_every_enumeration:
  "(UClass_get_objects_matching_activate_static w = (Inr activate_fn, wa)
      \<and> UClass_get_objects_matching_static wa = (Inr fn, wb) \<longrightarrow>
      (\<exists>es. trace (snd (UClass_get_objects_matching this allow_default w)) = trace w @ E_activate # es
            \<and> es \<noteq> [] \<and> E_activate \<notin> set es)
      \<and> activations (snd (UClass_get_objects_matching this allow_default w)) = Suc (activations w)
      \<and> get_objects_matching_activate_fn (snd (UClass_get_objects_matching this allow_default w)) =
           Some activate_fn
      \<and> get_objects_matching_fn (snd (UClass_get_objects_matching this allow_default w)) = Some fn)
   \<and> (UClass_get_objects_matching_activate_static w = (Inl e, wa) \<longrightarrow>
      UClass_get_objects_matching this allow_default w = (Inl e, w))
   \<and> (UClass_get_objects_matching_activate_static w = (Inr activate_fn, wa)
      \<and> UClass_get_objects_matching_static wa = (Inl e, wb) \<longrightarrow>
      UClass_get_objects_matching this allow_default w = (Inl e, wa) \<and> trace wa = trace w)
   \<and> (get_objects_matching_activate_fn w = Some activate_fn \<longrightarrow>
      UClass_get_objects_matching_activate_static w = (Inr activate_fn, w))
   \<and> (get_objects_matching_fn w = Some fn \<longrightarrow>
      UClass_get_objects_matching_static w = (Inr fn, w))
   \<and> (UClass_get_first_object_matching_activate_static w = (Inr activate_fn', wa')
      \<and> UClass_get_first_object_matching_static wa' = (Inr fn', wb') \<longrightarrow>
      trace (snd (UClass_get_first_object_matching this allow_default w))
         = trace w @ [E_activate, E_get_first_object_by_class this allow_default]
      \<and> activations (snd (UClass_get_first_object_matching this allow_default w)) = Suc (activations w)
      \<and> get_first_object_matching_activate_fn (snd (UClass_get_first_object_matching this allow_default w)) =
           Some activate_fn'
      \<and> get_first_object_matching_fn (snd (UClass_get_first_object_matching this allow_default w)) =
           Some fn')
   \<and> (UClass_get_first_object_matching_activate_static w = (Inl e', wa') \<longrightarrow>
      UClass_get_first_object_matching this allow_default w = (Inl e', w))
   \<and> (UClass_get_first_object_matching_activate_static w = (Inr activate_fn', wa')
      \<and> UClass_get_first_object_matching_static wa' = (Inl e', wb') \<longrightarrow>
      UClass_get_first_object_matching this allow_default w = (Inl e', wa') \<and> trace wa' = trace w)
   \<and> (get_first_object_matching_activate_fn w = Some activate_fn' \<longrightarrow>
      UClass_get_first_object_matching_activate_static w = (Inr activate_fn', w))
   \<and> (get_first_object_matching_fn w = Some fn' \<longrightarrow>
      UClass_get_first_object_matching_static w = (Inr fn', w))"
proof (intro conjI impI)
  assume "UClass_get_objects_matching_activate_static w = (Inr activate_fn, wa)
      \<and> UClass_get_objects_matching_static wa = (Inr fn, wb)"
  then have a: "UClass_get_objects_matching_activate_static w = (Inr activate_fn, wa)"
    and f: "UClass_get_objects_matching_static wa = (Inr fn, wb)"
    by simp_all
  show "\<exists>es. trace (snd (UClass_get_objects_matching this allow_default w)) = trace w @ E_activate # es
            \<and> es \<noteq> [] \<and> E_activate \<notin> set es"
    using a f by (rule get_objects_matching_activates(1))
  show "activations (snd (UClass_get_objects_matching this allow_default w)) = Suc (activations w)"
    using a f by (rule get_objects_matching_activates(2))
  show "get_objects_matching_activate_fn (snd (UClass_get_objects_matching this allow_default w)) =
           Some activate_fn"
    using a f by (rule get_objects_matching_activates(3))
  show "get_objects_matching_fn (snd (UClass_get_objects_matching this allow_default w)) = Some fn"
    using a f by (rule get_objects_matching_activates(4))
next
  assume "UClass_get_objects_matching_activate_static w = (Inl e, wa)"
  then show "UClass_get_objects_matching this allow_default w = (Inl e, w)"
    by (rule get_objects_matching_fails(1))
next
  assume b: "UClass_get_objects_matching_activate_static w = (Inr activate_fn, wa)
      \<and> UClass_get_objects_matching_static wa = (Inl e, wb)"
  show "UClass_get_objects_matching this allow_default w = (Inl e, wa)" and "trace wa = trace w"
    using get_objects_matching_fails(2) [OF conjunct1 [OF b] conjunct2 [OF b]] by simp_all
next
  assume "get_objects_matching_activate_fn w = Some activate_fn"
  then show "UClass_get_objects_matching_activate_static w = (Inr activate_fn, w)"
    by (rule enumeration_static_set(1))
next
  assume "get_objects_matching_fn w = Some fn"
  then show "UClass_get_objects_matching_static w = (Inr fn, w)"
    by (rule enumeration_static_set(2))
next
  assume "UClass_get_first_object_matching_activate_static w = (Inr activate_fn', wa')
      \<and> UClass_get_first_object_matching_static wa' = (Inr fn', wb')"
  then have a: "UClass_get_first_object_matching_activate_static w = (Inr activate_fn', wa')"
    and f: "UClass_get_first_object_matching_static wa' = (Inr fn', wb')"
    by simp_all
  show "trace (snd (UClass_get_first_object_matching this allow_default w))
         = trace w @ [E_activate, E_get_first_object_by_class this allow_default]"
    using a f by (rule get_first_object_matching_activates(1))
  show "activations (snd (UClass_get_first_object_matching this allow_default w)) = Suc (activations w)"
    using a f by (rule get_first_object_matching_activates(2))
  show "get_first_object_matching_activate_fn (snd (UClass_get_first_object_matching this allow_default w)) =
           Some activate_fn'"
    using a f by (rule get_first_object_matching_activates(3))
  show "get_first_object_matching_fn (snd (UClass_get_first_object_matching this allow_default w)) =
           Some fn'"
    using a f by (rule get_first_object_matching_activates(4))
next
  assume "UClass_get_first_object_matching_activate_static w = (Inl e', wa')"
  then show "UClass_get_first_object_matching this allow_default w = (Inl e', w)"
    by (rule get_first_object_matching_fails(1))
next
  assume b: "UClass_get_first_object_matching_activate_static w = (Inr activate_fn', wa')
      \<and> UClass_get_first_object_matching_static wa' = (Inl e', wb')"
  show "UClass_get_first_object_matching this allow_default w = (Inl e', wa')" and "trace wa' = trace w"
    using get_first_object_matching_fails(2) [OF conjunct1 [OF b] conjunct2 [OF b]] by simp_all
next
  assume "get_first_object_matching_activate_fn w = Some activate_fn'"
  then show "UClass_get_first_object_matching_activate_static w = (Inr activate_fn', w)"
    by (rule enumeration_static_set(3))
next
  assume "get_first_object_matching_fn w = Some fn'"
  then show "UClass_get_first_object_matching_static w = (Inr fn', w)"
    by (rule enumeration_static_set(4))
qed

text \<open>
  On the test host. Before \<^verbatim>\<open>API::initialize\<close> an enumeration call raises and activates
  nothing; so does one whose first static is set while the second cannot be initialised.
  After \<^verbatim>\<open>API::initialize\<close> the first call activates once and leaves its statics set; a
  pass over a set static returns it in the same state, and the next call activates once
  more.
\<close>

theorem activation_on_every_enumeration_witness:
  "UClass_get_first_object_matching 7 False (process_start (3::nat)) =
       (Inl (Runtime_Error ''API not initialized''), process_start 3)
   \<and> UClass_get_first_object_matching 7 False
        ((process_start (3::nat))\<lparr>get_first_object_matching_activate_fn := Some (\<lambda>s. s)\<rparr>) =
       (Inl (Runtime_Error ''API not initialized''),
        (process_start 3)\<lparr>get_first_object_matching_activate_fn := Some (\<lambda>s. s)\<rparr>)
   \<and> activations (snd (UClass_get_first_object_matching 7 False (demo_world demo_hook))) = 1
   \<and> UClass_get_first_object_matching_activate_static
        (snd (UClass_get_first_object_matching 7 False (demo_world demo_hook))) =
       (Inr (hook_activate demo_hook), snd (UClass_get_first_object_matching 7 False (demo_world demo_hook)))
   \<and> UClass_get_first_object_matching_static
        (snd (UClass_get_first_object_matching 7 False (demo_world demo_hook))) =
       (Inr (hook_get_first_object_by_class demo_hook),
        snd (UClass_get_first_object_matching 7 False (demo_world demo_hook)))
   \<and> activations (snd (UClass_get_first_object_matching 7 False
        (snd (UClass_get_first_object_matching 7 False (demo_world demo_hook))))) = 2
   \<and> UClass_get_objects_matching 7 False (process_start (3::nat)) =
       (Inl (Runtime_Error ''API not initialized''), process_start 3)
   \<and> UClass_get_objects_matching 7 False
        ((process_start (3::nat))\<lparr>get_objects_matching_activate_fn := Some (\<lambda>s. s)\<rparr>) =
       (Inl (Runtime_Error ''API not initialized''),
        (process_start 3)\<lparr>get_objects_matching_activate_fn := Some (\<lambda>s. s)\<rparr>)
   \<and> activations (snd (UClass_get_objects_matching 7 False (demo_world demo_hook))) = 1
   \<and> UClass_get_objects_matching_activate_static
        (snd (UClass_get_objects_matching 7 False (demo_world demo_hook))) =
       (Inr (hook_activate demo_hook), snd (UClass_get_objects_matching 7 False (demo_world demo_hook)))
   \<and> UClass_get_objects_matching_static
        (snd (UClass_get_objects_matching 7 False (demo_world demo_hook))) =
       (Inr (hook_get_objects_by_class demo_hook),
        snd (UClass_get_objects_matching 7 False (demo_world demo_hook)))
   \<and> activations (snd (UClass_get_objects_matching 7 False
        (snd (UClass_get_objects_matching 7 False (demo_world demo_hook))))) = 2"
proof -
  let ?p = "process_start (3::nat)"
  let ?w = "demo_world demo_hook"
  let ?not = "Runtime_Error ''API not initialized''"
  note eval = enumeration_defs action_defs demo_defs

  txt \<open>\<^verbatim>\<open>get_first_object_matching\<close>: the calls that fail.\<close>
  let ?u = "?p\<lparr>get_first_object_matching_activate_fn := Some (\<lambda>s. s)\<rparr>"
  have "UClass_get_first_object_matching_activate_static ?p = (Inl ?not, ?p)"
    by (simp add: eval)
  then have f1: "UClass_get_first_object_matching 7 False ?p = (Inl ?not, ?p)"
    using activation_on_every_enumeration [where w = ?p and this = 7 and allow_default = False
        and e' = ?not and wa' = ?p]
    by blast
  have "get_first_object_matching_activate_fn ?u = Some (\<lambda>s. s)"
    by simp
  then have "UClass_get_first_object_matching_activate_static ?u = (Inr (\<lambda>s. s), ?u)"
    using activation_on_every_enumeration [where w = ?u and activate_fn' = "\<lambda>s. s"]
    by blast
  moreover have "UClass_get_first_object_matching_static ?u = (Inl ?not, ?u)"
    by (simp add: eval)
  ultimately have f2: "UClass_get_first_object_matching 7 False ?u = (Inl ?not, ?u)"
    using activation_on_every_enumeration [where w = ?u and this = 7 and allow_default = False
        and activate_fn' = "\<lambda>s. s" and e' = ?not and wa' = ?u and wb' = ?u]
    by blast

  txt \<open>\<^verbatim>\<open>get_first_object_matching\<close>: the first call and the second.\<close>
  let ?v = "snd (UClass_get_first_object_matching 7 False ?w)"
  have a0: "activations ?w = 0"
    by (simp add: activations_def demo_defs)
  have s1: "UClass_get_first_object_matching_activate_static ?w =
      (Inr (hook_activate demo_hook), snd (UClass_get_first_object_matching_activate_static ?w))"
    by (rule pair_of_fst) (simp add: eval)
  have s2: "UClass_get_first_object_matching_static (snd (UClass_get_first_object_matching_activate_static ?w)) =
      (Inr (hook_get_first_object_by_class demo_hook),
       snd (UClass_get_first_object_matching_static (snd (UClass_get_first_object_matching_activate_static ?w))))"
    by (rule pair_of_fst) (simp add: eval)
  note first = activation_on_every_enumeration [where w = ?w and this = 7 and allow_default = False
      and activate_fn' = "hook_activate demo_hook" and fn' = "hook_get_first_object_by_class demo_hook"
      and wa' = "snd (UClass_get_first_object_matching_activate_static ?w)"
      and wb' = "snd (UClass_get_first_object_matching_static (snd (UClass_get_first_object_matching_activate_static ?w)))"]
  have f3: "activations ?v = 1"
    and g1: "get_first_object_matching_activate_fn ?v = Some (hook_activate demo_hook)"
    and g2: "get_first_object_matching_fn ?v = Some (hook_get_first_object_by_class demo_hook)"
    using first s1 s2 a0 by simp_all
  have f4: "UClass_get_first_object_matching_activate_static ?v = (Inr (hook_activate demo_hook), ?v)"
    using activation_on_every_enumeration [where w = ?v and activate_fn' = "hook_activate demo_hook"] g1
    by blast
  have f5: "UClass_get_first_object_matching_static ?v =
      (Inr (hook_get_first_object_by_class demo_hook), ?v)"
    using activation_on_every_enumeration [where w = ?v and fn' = "hook_get_first_object_by_class demo_hook"] g2
    by blast
  have f6: "activations (snd (UClass_get_first_object_matching 7 False ?v)) = 2"
    using activation_on_every_enumeration [where w = ?v and this = 7 and allow_default = False
        and activate_fn' = "hook_activate demo_hook" and fn' = "hook_get_first_object_by_class demo_hook"
        and wa' = ?v and wb' = ?v] f4 f5 f3
    by simp

  txt \<open>\<^verbatim>\<open>get_objects_matching\<close>: the calls that fail.\<close>
  let ?x = "?p\<lparr>get_objects_matching_activate_fn := Some (\<lambda>s. s)\<rparr>"
  have "UClass_get_objects_matching_activate_static ?p = (Inl ?not, ?p)"
    by (simp add: eval)
  then have o1: "UClass_get_objects_matching 7 False ?p = (Inl ?not, ?p)"
    using activation_on_every_enumeration [where w = ?p and this = 7 and allow_default = False
        and e = ?not and wa = ?p]
    by blast
  have "get_objects_matching_activate_fn ?x = Some (\<lambda>s. s)"
    by simp
  then have "UClass_get_objects_matching_activate_static ?x = (Inr (\<lambda>s. s), ?x)"
    using activation_on_every_enumeration [where w = ?x and activate_fn = "\<lambda>s. s"]
    by blast
  moreover have "UClass_get_objects_matching_static ?x = (Inl ?not, ?x)"
    by (simp add: eval)
  ultimately have o2: "UClass_get_objects_matching 7 False ?x = (Inl ?not, ?x)"
    using activation_on_every_enumeration [where w = ?x and this = 7 and allow_default = False
        and activate_fn = "\<lambda>s. s" and e = ?not and wa = ?x and wb = ?x]
    by blast

  txt \<open>\<^verbatim>\<open>get_objects_matching\<close>: the first call and the second.\<close>
  let ?y = "snd (UClass_get_objects_matching 7 False ?w)"
  note d = demo_enumeration_statics [of demo_hook]
  note ofirst = activation_on_every_enumeration [where w = ?w and this = 7 and allow_default = False
      and activate_fn = "hook_activate demo_hook" and fn = "hook_get_objects_by_class demo_hook"
      and wa = "snd (UClass_get_objects_matching_activate_static ?w)"
      and wb = "snd (UClass_get_objects_matching_static (snd (UClass_get_objects_matching_activate_static ?w)))"]
  have o3: "activations ?y = 1"
    and h1: "get_objects_matching_activate_fn ?y = Some (hook_activate demo_hook)"
    and h2: "get_objects_matching_fn ?y = Some (hook_get_objects_by_class demo_hook)"
    using ofirst d(1) d(2) a0 by simp_all
  have o4: "UClass_get_objects_matching_activate_static ?y = (Inr (hook_activate demo_hook), ?y)"
    using activation_on_every_enumeration [where w = ?y and activate_fn = "hook_activate demo_hook"] h1
    by blast
  have o5: "UClass_get_objects_matching_static ?y = (Inr (hook_get_objects_by_class demo_hook), ?y)"
    using activation_on_every_enumeration [where w = ?y and fn = "hook_get_objects_by_class demo_hook"] h2
    by blast
  have o6: "activations (snd (UClass_get_objects_matching 7 False ?y)) = 2"
    using activation_on_every_enumeration [where w = ?y and this = 7 and allow_default = False
        and activate_fn = "hook_activate demo_hook" and fn = "hook_get_objects_by_class demo_hook"
        and wa = ?y and wb = ?y] o4 o5 o3
    by simp
  from f1 f2 f3 f4 f5 f6 o1 o2 o3 o4 o5 o6 show ?thesis
    by (intro conjI)
qed

section \<open>Full names\<close>

text \<open>
  Claim C8. When \<^verbatim>\<open>get_class\<close> returns the null pointer, \<^verbatim>\<open>get_full_name\<close> returns the
  empty string, in the state \<^verbatim>\<open>get_class\<close> left: no name is resolved and no outer is
  asked for.
\<close>

theorem get_full_name_no_class:
  assumes "UObject_get_class this w = (Inr nullptr, w1)"
  shows "UObject_get_full_name fuel this w = (Inr [], w1)"
  using assms by (simp add: UObject_get_full_name_def then_op_def ret_def)

theorem get_full_name_no_class_witness:
  "UObject_get_full_name 0 5 (demo_world demo_hook) = (Inr [], snd (UObject_get_class 5 (demo_world demo_hook)))
   \<and> trace (snd (UObject_get_full_name 0 5 (demo_world demo_hook))) = [Fetch K_UObject, E_get_class 5]"
proof -
  have a: "UObject_get_class 5 (demo_world demo_hook) = (Inr nullptr, snd (UObject_get_class 5 (demo_world demo_hook)))"
    by (rule pair_of_fst) (simp add: object_defs action_defs demo_defs)
  have "trace (snd (UObject_get_class 5 (demo_world demo_hook))) = [Fetch K_UObject, E_get_class 5]"
    by (simp add: object_defs action_defs demo_defs)
  with get_full_name_no_class [OF a, of 0] show ?thesis
    by simp
qed

text \<open>
  Claim C4. For an object with a class whose \<^verbatim>\<open>get_outer\<close> returns the object itself,
  \<^verbatim>\<open>get_full_name\<close> returns after the first test of its loop (any budget of at least one
  test is enough), with the class name, a space and the object's own name. The walk ends
  at once on an outer that is null or is the starting object.
\<close>

theorem get_full_name_own_outer:
  assumes "UObject_get_class this w = (Inr c, w1)" and "c \<noteq> nullptr"
    and "then_op (UObject_get_fname this) FName_to_string w1 = (Inr obj_name, w2)"
    and "UObject_get_outer this w2 = (Inr this, w3)"
    and "then_op (UObject_get_fname c) FName_to_string w3 = (Inr class_name, w4)"
  shows "UObject_get_full_name (Suc n) this w = (Inr (class_name @ [space] @ obj_name), w4)
       \<and> (\<forall>outer name w'. outer = nullptr \<or> outer = this \<longrightarrow>
             outer_walk (Suc n) this outer name w' = (Inr name, w'))"
  using assms
  by (simp add: UObject_get_full_name_def then_op_Inr ret_def)

theorem get_full_name_own_outer_witness:
  "fst (UObject_get_full_name (Suc 0) 4 (demo_world demo_hook)) = Inr [75, 108, 32, 68]"
proof -
  let ?w = "demo_world demo_hook"
  let ?w1 = "snd (UObject_get_class 4 ?w)"
  let ?w2 = "snd (then_op (UObject_get_fname 4) FName_to_string ?w1)"
  let ?w3 = "snd (UObject_get_outer 4 ?w2)"
  let ?w4 = "snd (then_op (UObject_get_fname 7) FName_to_string ?w3)"
  note defs = object_defs name_defs action_defs demo_defs overwrite_def Let_def
  have h1: "UObject_get_class 4 ?w = (Inr 7, ?w1)"
    by (rule pair_of_fst) (simp add: defs)
  have h2: "then_op (UObject_get_fname 4) FName_to_string ?w1 = (Inr [68], ?w2)"
    by (rule pair_of_fst) (simp add: defs)
  have h3: "UObject_get_outer 4 ?w2 = (Inr 4, ?w3)"
    by (rule pair_of_fst) (simp add: defs)
  have h4: "then_op (UObject_get_fname 7) FName_to_string ?w3 = (Inr [75, 108], ?w4)"
    by (rule pair_of_fst) (simp add: defs replicate_2)
  have n: "(7::handle) \<noteq> nullptr"
    by simp
  from conjunct1 [OF get_full_name_own_outer [OF h1 n h2 h3 h4, of 0]] show ?thesis
    by (simp add: space_def)
qed

text \<open>
  Claim C3. For an object C with a class, whose outer is B, whose outer is A, which has
  no outer (A and B are other objects than C), with every lookup on the way returning a
  value, \<^verbatim>\<open>get_full_name\<close> on C returns, given a budget of at least three loop tests, the
  name of C's class, a space, and the names of A, B and C joined by dots.
\<close>

theorem get_full_name_chain:
  assumes "UObject_get_class C w = (Inr c, w1)" and "c \<noteq> nullptr"
    and "then_op (UObject_get_fname C) FName_to_string w1 = (Inr name_C, w2)"
    and "UObject_get_outer C w2 = (Inr B, w3)" and "B \<noteq> nullptr" and "B \<noteq> C"
    and "then_op (UObject_get_fname B) FName_to_string w3 = (Inr name_B, w4)"
    and "UObject_get_outer B w4 = (Inr A, w5)" and "A \<noteq> nullptr" and "A \<noteq> C"
    and "then_op (UObject_get_fname A) FName_to_string w5 = (Inr name_A, w6)"
    and "UObject_get_outer A w6 = (Inr nullptr, w7)"
    and "then_op (UObject_get_fname c) FName_to_string w7 = (Inr class_name, w8)"
  shows "UObject_get_full_name (Suc (Suc (Suc n))) C w =
           (Inr (class_name @ [space] @ name_A @ [dot] @ name_B @ [dot] @ name_C), w8)"
  using assms
  by (simp add: UObject_get_full_name_def then_op_Inr ret_def)

theorem get_full_name_chain_witness:
  "fst (UObject_get_full_name (Suc (Suc (Suc 0))) 3 (demo_world demo_hook)) =
     Inr [75, 108, 32, 65, 46, 66, 46, 67]"
proof -
  let ?w = "demo_world demo_hook"
  let ?w1 = "snd (UObject_get_class 3 ?w)"
  let ?w2 = "snd (then_op (UObject_get_fname 3) FName_to_string ?w1)"
  let ?w3 = "snd (UObject_get_outer 3 ?w2)"
  let ?w4 = "snd (then_op (UObject_get_fname 2) FName_to_string ?w3)"
  let ?w5 = "snd (UObject_get_outer 2 ?w4)"
  let ?w6 = "snd (then_op (UObject_get_fname 1) FName_to_string ?w5)"
  let ?w7 = "snd (UObject_get_outer 1 ?w6)"
  let ?w8 = "snd (then_op (UObject_get_fname 7) FName_to_string ?w7)"
  note defs = object_defs name_defs action_defs demo_defs overwrite_def Let_def
  have h1: "UObject_get_class 3 ?w = (Inr 7, ?w1)"
    by (rule pair_of_fst) (simp add: defs)
  have h2: "then_op (UObject_get_fname 3) FName_to_string ?w1 = (Inr [67], ?w2)"
    by (rule pair_of_fst) (simp add: defs)
  have h3: "UObject_get_outer 3 ?w2 = (Inr 2, ?w3)"
    by (rule pair_of_fst) (simp add: defs)
  have h4: "then_op (UObject_get_fname 2) FName_to_string ?w3 = (Inr [66], ?w4)"
    by (rule pair_of_fst) (simp add: defs)
  have h5: "UObject_get_outer 2 ?w4 = (Inr 1, ?w5)"
    by (rule pair_of_fst) (simp add: defs)
  have h6: "then_op (UObject_get_fname 1) FName_to_string ?w5 = (Inr [65], ?w6)"
    by (rule pair_of_fst) (simp add: defs)
  have h7: "UObject_get_outer 1 ?w6 = (Inr nullptr, ?w7)"
    by (rule pair_of_fst) (simp add: defs)
  have h8: "then_op (UObject_get_fname 7) FName_to_string ?w7 = (Inr [75, 108], ?w8)"
    by (rule pair_of_fst) (simp add: defs replicate_2)
  have n: "(7::handle) \<noteq> nullptr" "(2::handle) \<noteq> nullptr" "(2::handle) \<noteq> 3"
    "(1::handle) \<noteq> nullptr" "(1::handle) \<noteq> 3"
    by simp_all
  from get_full_name_chain [OF h1 n(1) h2 h3 n(2) n(3) h4 h5 n(4) n(5) h6 h7 h8, of 0] show ?thesis
    by (simp add: space_def dot_def)
qed

section \<open>The function tables are fetched once\<close>

text \<open>
  The invariant \<open>since k w0\<close> is carried through every action of the bridge by the rules
  below: through the combinators first, then through the table lookups, the statics, the
  wrappers and whole runs.
\<close>

subsection \<open>Rules for holds_through\<close>

lemma holds_through_ret: "holds_through I Q (ret x)"
  by (simp add: holds_through_def ret_def)

lemma holds_through_then_op:
  assumes "holds_through I Q m" and "\<And>x. holds_through I Q (f x)"
  shows "holds_through I Q (then_op m f)"
  unfolding holds_through_def
proof (intro allI impI)
  fix w assume i: "I w"
  obtain r w' where m: "m w = (r, w')" by (cases "m w")
  show "case then_op m f w of (Inl Null_Dereference, w') \<Rightarrow> Q w' | (_, w') \<Rightarrow> I w'"
  proof (cases r)
    case (Inl e)
    with assms(1) i m show ?thesis
      by (auto simp: holds_through_def then_op_def split: abort.splits)
  next
    case (Inr x)
    with assms(1) i m have "I w'"
      by (auto simp: holds_through_def)
    with assms(2) [of x] have "case f x w' of (Inl Null_Dereference, w'') \<Rightarrow> Q w'' | (_, w'') \<Rightarrow> I w''"
      by (simp add: holds_through_def)
    with m Inr show ?thesis
      by (simp add: then_op_def)
  qed
qed

lemma holds_through_local_static:
  assumes "holds_through I Q init" and "\<And>v w. I (wr v w) = I w"
  shows "holds_through I Q (local_static rd wr init)"
  using assms
  by (auto simp: holds_through_def local_static_def split: option.splits prod.splits sum.splits abort.splits)

lemma holds_through_host_call:
  assumes "\<And>h' w. I (w\<lparr>host := h', trace := trace w @ [ev]\<rparr>) = I w"
  shows "holds_through I Q (host_call ev f)"
  using assms
  by (auto simp: holds_through_def host_call_def split: prod.splits)

lemma holds_through_host_call_void:
  assumes "\<And>h' w. I (w\<lparr>host := h', trace := trace w @ [ev]\<rparr>) = I w"
  shows "holds_through I Q (host_call_void ev f)"
  unfolding host_call_void_def using assms by (rule holds_through_host_call)

subsection \<open>What since depends on\<close>

lemma cached_cong:
  assumes "FName_s_functions w' = FName_s_functions w"
    and "UObject_s_functions w' = UObject_s_functions w"
    and "UStruct_s_functions w' = UStruct_s_functions w"
    and "UClass_s_functions w' = UClass_s_functions w"
    and "UFunction_s_functions w' = UFunction_s_functions w"
    and "FField_s_functions w' = FField_s_functions w"
    and "FProperty_s_functions w' = FProperty_s_functions w"
    and "FFieldClass_s_functions w' = FFieldClass_s_functions w"
  shows "cached k w' = cached k w"
  using assms by (cases k) simp_all

lemma since_cong:
  assumes "fetches k w' = fetches k w"
    and "FName_s_functions w' = FName_s_functions w"
    and "UObject_s_functions w' = UObject_s_functions w"
    and "UStruct_s_functions w' = UStruct_s_functions w"
    and "UClass_s_functions w' = UClass_s_functions w"
    and "UFunction_s_functions w' = UFunction_s_functions w"
    and "FField_s_functions w' = FField_s_functions w"
    and "FProperty_s_functions w' = FProperty_s_functions w"
    and "FFieldClass_s_functions w' = FFieldClass_s_functions w"
  shows "since k w0 w' = since k w0 w"
proof -
  have "cached k w' = cached k w"
    using assms(2-9) by (rule cached_cong)
  moreover have "kept w0 w' = kept w0 w"
    unfolding kept_def using assms(2-9) by simp
  ultimately show ?thesis
    unfolding since_def using assms(1) by simp
qed

lemma since_static_frame:
  "since k w0 (w\<lparr>FName_to_string_fn := v0\<rparr>) = since k w0 w"
  "since k w0 (w\<lparr>UObject_get_class_fn := v1\<rparr>) = since k w0 w"
  "since k w0 (w\<lparr>UObject_get_outer_fn := v2\<rparr>) = since k w0 w"
  "since k w0 (w\<lparr>UObject_is_a_fn := v3\<rparr>) = since k w0 w"
  "since k w0 (w\<lparr>UObject_process_event_fn := v4\<rparr>) = since k w0 w"
  "since k w0 (w\<lparr>UObject_call_function_fn := v5\<rparr>) = since k w0 w"
  "since k w0 (w\<lparr>UObject_get_property_data_fn := v6\<rparr>) = since k w0 w"
  "since k w0 (w\<lparr>UObject_get_fname_fn := v7\<rparr>) = since k w0 w"
  "since k w0 (w\<lparr>UStruct_get_super_struct_fn := v8\<rparr>) = since k w0 w"
  "since k w0 (w\<lparr>UStruct_find_function_fn := v9\<rparr>) = since k w0 w"
  "since k w0 (w\<lparr>UStruct_get_child_properties_fn := v10\<rparr>) = since k w0 w"
  "since k w0 (w\<lparr>UClass_get_class_default_object_fn := v11\<rparr>) = since k w0 w"
  "since k w0 (w\<lparr>get_objects_matching_activate_fn := v12\<rparr>) = since k w0 w"
  "since k w0 (w\<lparr>get_objects_matching_fn := v13\<rparr>) = since k w0 w"
  "since k w0 (w\<lparr>get_first_object_matching_activate_fn := v14\<rparr>) = since k w0 w"
  "since k w0 (w\<lparr>get_first_object_matching_fn := v15\<rparr>) = since k w0 w"
  "since k w0 (w\<lparr>UFunction_get_native_function_fn := v16\<rparr>) = since k w0 w"
  "since k w0 (w\<lparr>FField_get_next_fn := v17\<rparr>) = since k w0 w"
  "since k w0 (w\<lparr>FField_get_fname_fn := v18\<rparr>) = since k w0 w"
  "since k w0 (w\<lparr>FField_get_class_fn := v19\<rparr>) = since k w0 w"
  "since k w0 (w\<lparr>FProperty_get_offset_fn := v20\<rparr>) = since k w0 w"
  "since k w0 (w\<lparr>FFieldClass_get_fname_fn := v21\<rparr>) = since k w0 w"
  by (rule since_cong; simp add: fetches_def)+

lemma since_host_frame:
  "ev \<notin> range Fetch \<Longrightarrow> since k w0 (w\<lparr>host := h, trace := trace w @ [ev]\<rparr>) = since k w0 w"
  by (rule since_cong) (auto simp: fetches_def)

lemma since_instance_frame: "since k w0 (w\<lparr>s_instance := a\<rparr>) = since k w0 w"
  by (rule since_cong) (simp_all add: fetches_def)

lemma since_refl: "since k w w"
  by (simp add: since_def kept_def)

lemma since_imp_end: "since k w0 w \<Longrightarrow> since_end k w0 w"
  by (auto simp: since_def since_end_def split: if_splits)

lemma kept_cached: "kept w0 w \<Longrightarrow> cached k w0 \<Longrightarrow> cached k w"
  by (cases k) (simp_all add: kept_def)

lemma fetched_step:
  assumes s: "since k w0 w" and n: "\<not> cached kf w"
    and kp: "kept w0 w1"
    and fk: "fetches k w1 = (if k = kf then Suc (fetches k w) else fetches k w)"
    and ck: "k \<noteq> kf \<Longrightarrow> cached k w1 = cached k w"
  shows "since_end k w0 w1" and "cached kf w1 \<Longrightarrow> since k w0 w1"
proof -
  have kw: "kept w0 w" and f0: "fetches k w0 \<le> fetches k w"
    and f1: "fetches k w \<le> fetches k w0 + (if cached k w0 then 0 else if cached k w then 1 else 0)"
    using s by (simp_all add: since_def)
  have n0: "\<not> cached kf w0"
    using kept_cached [OF kw] n by blast
  show "since_end k w0 w1"
  proof (cases "k = kf")
    case True
    with n n0 f0 f1 fk kp show ?thesis by (auto simp: since_end_def split: if_splits)
  next
    case False
    with f0 f1 fk kp ck show ?thesis by (auto simp: since_end_def split: if_splits)
  qed
  show "since k w0 w1" if c: "cached kf w1"
  proof (cases "k = kf")
    case True
    with n n0 f0 f1 fk kp c show ?thesis by (auto simp: since_def split: if_splits)
  next
    case False
    with f0 f1 fk kp ck show ?thesis by (auto simp: since_def split: if_splits)
  qed
qed

text \<open>
  The shape shared by the eight \<open>initialize\<close> functions, followed by the dereference of
  what they return: \<open>rd\<close> reads \<^verbatim>\<open>s_functions\<close>, \<open>wr\<close> writes it, \<open>fld\<close> is the kind's field of
  \<^verbatim>\<open>UEVR_SDKData\<close>.
\<close>

lemma lookup_inv:
  fixes rd :: "'h world \<Rightarrow> 't option"
  assumes init: "\<And>w. init w =
        (if rd w = None then
           then_op (then_op API_get_sdk (\<lambda>d. fetch kf (fld d))) (\<lambda>t w'. (Inr t, wr t w')) w
         else (Inr (rd w), w))"
    and fetched: "\<And>w t. rd w = None \<Longrightarrow> since k w0 w \<Longrightarrow>
        since_end k w0 (wr t (w\<lparr>trace := trace w @ [Fetch kf]\<rparr>))
        \<and> (t \<noteq> None \<longrightarrow> since k w0 (wr t (w\<lparr>trace := trace w @ [Fetch kf]\<rparr>)))"
  shows "holds_through (since k w0) (since_end k w0)
           (then_op init (\<lambda>t. then_op (deref t) (\<lambda>tbl. ret (sel tbl))))"
  unfolding holds_through_def
proof (intro allI impI)
  fix w :: "'h world"
  let ?m = "then_op init (\<lambda>t. then_op (deref t) (\<lambda>tbl. ret (sel tbl)))"
  assume s: "since k w0 w"
  show "case ?m w of (Inl Null_Dereference, w') \<Rightarrow> since_end k w0 w' | (_, w') \<Rightarrow> since k w0 w'"
  proof (cases "rd w")
    case (Some t)
    with s show ?thesis
      by (simp add: init action_defs)
  next
    case None
    note n = this
    show ?thesis
    proof (cases "s_instance w")
      case None
      with n s show ?thesis
        by (simp add: init action_defs API_get_sdk_def API_get_def)
    next
      case (Some a)
      note a = this
      show ?thesis
      proof (cases "m_sdk a")
        case None
        with n a since_imp_end [OF s] show ?thesis
          by (simp add: init action_defs API_get_sdk_def API_get_def)
      next
        case (Some d)
        with n a fetched [OF n s, of "fld d"] show ?thesis
          by (cases "fld d") (simp_all add: init action_defs API_get_sdk_def API_get_def)
      qed
    qed
  qed
qed

lemma fetched_unless_cached:
  assumes s: "since k w0 w" and n: "\<not> cached kf w"
    and kp: "kept w0 w \<Longrightarrow> \<not> cached kf w0 \<Longrightarrow> kept w0 w1"
    and fk: "fetches k w1 = (if k = kf then Suc (fetches k w) else fetches k w)"
    and ck: "k \<noteq> kf \<Longrightarrow> cached k w1 = cached k w"
  shows "since_end k w0 w1 \<and> (cached kf w1 \<longrightarrow> since k w0 w1)"
proof -
  have "kept w0 w"
    using s by (simp add: since_def)
  then have "kept w0 w1"
    using kept_cached [of w0 w kf] n kp by blast
  with fetched_step [OF s n _ fk ck] show ?thesis
    by blast
qed

lemma FName_lookup:
  "holds_through (since k (w0 :: 'h world)) (since_end k w0)
     (then_op FName_initialize (\<lambda>t. then_op (deref t) (\<lambda>tbl. ret (sel tbl))))"
proof (rule lookup_inv [where rd = "FName_s_functions :: 'h world \<Rightarrow> _" and kf = K_FName and fld = fname
      and wr = "\<lambda>t (w :: 'h world). w\<lparr>FName_s_functions := t\<rparr>"])
  show "FName_initialize w =
      (if FName_s_functions w = None then
         then_op (then_op API_get_sdk (\<lambda>d. fetch K_FName (fname d)))
           (\<lambda>t w'. (Inr t, w'\<lparr>FName_s_functions := t\<rparr>)) w
       else (Inr (FName_s_functions w), w))" for w :: "'h world"
    by (simp add: FName_initialize_def)
next
  fix w :: "'h world" and t
  let ?w1 = "w\<lparr>trace := trace w @ [Fetch K_FName], FName_s_functions := t\<rparr>"
  assume n: "FName_s_functions w = None" and s: "since k w0 w"
  have "since_end k w0 ?w1 \<and> (cached K_FName ?w1 \<longrightarrow> since k w0 ?w1)"
  proof (rule fetched_unless_cached [OF s])
    show "\<not> cached K_FName w" using n by simp
    show "kept w0 ?w1" if "kept w0 w" and "\<not> cached K_FName w0"
      using that by (simp add: kept_def)
    show "fetches k ?w1 = (if k = K_FName then Suc (fetches k w) else fetches k w)"
      by (simp add: fetches_def)
    show "cached k ?w1 = cached k w" if "k \<noteq> K_FName"
      using that by (cases k) simp_all
  qed
  then show "since_end k w0 ?w1 \<and> (t \<noteq> None \<longrightarrow> since k w0 ?w1)"
    by simp
qed

lemma UObject_lookup:
  "holds_through (since k (w0 :: 'h world)) (since_end k w0)
     (then_op UObject_initialize (\<lambda>t. then_op (deref t) (\<lambda>tbl. ret (sel tbl))))"
proof (rule lookup_inv [where rd = "UObject_s_functions :: 'h world \<Rightarrow> _" and kf = K_UObject and fld = uobject
      and wr = "\<lambda>t (w :: 'h world). w\<lparr>UObject_s_functions := t\<rparr>"])
  show "UObject_initialize w =
      (if UObject_s_functions w = None then
         then_op (then_op API_get_sdk (\<lambda>d. fetch K_UObject (uobject d)))
           (\<lambda>t w'. (Inr t, w'\<lparr>UObject_s_functions := t\<rparr>)) w
       else (Inr (UObject_s_functions w), w))" for w :: "'h world"
    by (simp add: UObject_initialize_def)
next
  fix w :: "'h world" and t
  let ?w1 = "w\<lparr>trace := trace w @ [Fetch K_UObject], UObject_s_functions := t\<rparr>"
  assume n: "UObject_s_functions w = None" and s: "since k w0 w"
  have "since_end k w0 ?w1 \<and> (cached K_UObject ?w1 \<longrightarrow> since k w0 ?w1)"
  proof (rule fetched_unless_cached [OF s])
    show "\<not> cached K_UObject w" using n by simp
    show "kept w0 ?w1" if "kept w0 w" and "\<not> cached K_UObject w0"
      using that by (simp add: kept_def)
    show "fetches k ?w1 = (if k = K_UObject then Suc (fetches k w) else fetches k w)"
      by (simp add: fetches_def)
    show "cached k ?w1 = cached k w" if "k \<noteq> K_UObject"
      using that by (cases k) simp_all
  qed
  then show "since_end k w0 ?w1 \<and> (t \<noteq> None \<longrightarrow> since k w0 ?w1)"
    by simp
qed

lemma UStruct_lookup:
  "holds_through (since k (w0 :: 'h world)) (since_end k w0)
     (then_op UStruct_initialize (\<lambda>t. then_op (deref t) (\<lambda>tbl. ret (sel tbl))))"
proof (rule lookup_inv [where rd = "UStruct_s_functions :: 'h world \<Rightarrow> _" and kf = K_UStruct and fld = ustruct
      and wr = "\<lambda>t (w :: 'h world). w\<lparr>UStruct_s_functions := t\<rparr>"])
  show "UStruct_initialize w =
      (if UStruct_s_functions w = None then
         then_op (then_op API_get_sdk (\<lambda>d. fetch K_UStruct (ustruct d)))
           (\<lambda>t w'. (Inr t, w'\<lparr>UStruct_s_functions := t\<rparr>)) w
       else (Inr (UStruct_s_functions w), w))" for w :: "'h world"
    by (simp add: UStruct_initialize_def)
next
  fix w :: "'h world" and t
  let ?w1 = "w\<lparr>trace := trace w @ [Fetch K_UStruct], UStruct_s_functions := t\<rparr>"
  assume n: "UStruct_s_functions w = None" and s: "since k w0 w"
  have "since_end k w0 ?w1 \<and> (cached K_UStruct ?w1 \<longrightarrow> since k w0 ?w1)"
  proof (rule fetched_unless_cached [OF s])
    show "\<not> cached K_UStruct w" using n by simp
    show "kept w0 ?w1" if "kept w0 w" and "\<not> cached K_UStruct w0"
      using that by (simp add: kept_def)
    show "fetches k ?w1 = (if k = K_UStruct then Suc (fetches k w) else fetches k w)"
      by (simp add: fetches_def)
    show "cached k ?w1 = cached k w" if "k \<noteq> K_UStruct"
      using that by (cases k) simp_all
  qed
  then show "since_end k w0 ?w1 \<and> (t \<noteq> None \<longrightarrow> since k w0 ?w1)"
    by simp
qed

lemma UClass_lookup:
  "holds_through (since k (w0 :: 'h world)) (since_end k w0)
     (then_op UClass_initialize (\<lambda>t. then_op (deref t) (\<lambda>tbl. ret (sel tbl))))"
proof (rule lookup_inv [where rd = "UClass_s_functions :: 'h world \<Rightarrow> _" and kf = K_UClass and fld = uclass
      and wr = "\<lambda>t (w :: 'h world). w\<lparr>UClass_s_functions := t\<rparr>"])
  show "UClass_initialize w =
      (if UClass_s_functions w = None then
         then_op (then_op API_get_sdk (\<lambda>d. fetch K_UClass (uclass d)))
           (\<lambda>t w'. (Inr t, w'\<lparr>UClass_s_functions := t\<rparr>)) w
       else (Inr (UClass_s_functions w), w))" for w :: "'h world"
    by (simp add: UClass_initialize_def)
next
  fix w :: "'h world" and t
  let ?w1 = "w\<lparr>trace := trace w @ [Fetch K_UClass], UClass_s_functions := t\<rparr>"
  assume n: "UClass_s_functions w = None" and s: "since k w0 w"
  have "since_end k w0 ?w1 \<and> (cached K_UClass ?w1 \<longrightarrow> since k w0 ?w1)"
  proof (rule fetched_unless_cached [OF s])
    show "\<not> cached K_UClass w" using n by simp
    show "kept w0 ?w1" if "kept w0 w" and "\<not> cached K_UClass w0"
      using that by (simp add: kept_def)
    show "fetches k ?w1 = (if k = K_UClass then Suc (fetches k w) else fetches k w)"
      by (simp add: fetches_def)
    show "cached k ?w1 = cached k w" if "k \<noteq> K_UClass"
      using that by (cases k) simp_all
  qed
  then show "since_end k w0 ?w1 \<and> (t \<noteq> None \<longrightarrow> since k w0 ?w1)"
    by simp
qed

lemma UFunction_lookup:
  "holds_through (since k (w0 :: 'h world)) (since_end k w0)
     (then_op UFunction_initialize (\<lambda>t. then_op (deref t) (\<lambda>tbl. ret (sel tbl))))"
proof (rule lookup_inv [where rd = "UFunction_s_functions :: 'h world \<Rightarrow> _" and kf = K_UFunction and fld = ufunction
      and wr = "\<lambda>t (w :: 'h world). w\<lparr>UFunction_s_functions := t\<rparr>"])
  show "UFunction_initialize w =
      (if UFunction_s_functions w = None then
         then_op (then_op API_get_sdk (\<lambda>d. fetch K_UFunction (ufunction d)))
           (\<lambda>t w'. (Inr t, w'\<lparr>UFunction_s_functions := t\<rparr>)) w
       else (Inr (UFunction_s_functions w), w))" for w :: "'h world"
    by (simp add: UFunction_initialize_def)
next
  fix w :: "'h world" and t
  let ?w1 = "w\<lparr>trace := trace w @ [Fetch K_UFunction], UFunction_s_functions := t\<rparr>"
  assume n: "UFunction_s_functions w = None" and s: "since k w0 w"
  have "since_end k w0 ?w1 \<and> (cached K_UFunction ?w1 \<longrightarrow> since k w0 ?w1)"
  proof (rule fetched_unless_cached [OF s])
    show "\<not> cached K_UFunction w" using n by simp
    show "kept w0 ?w1" if "kept w0 w" and "\<not> cached K_UFunction w0"
      using that by (simp add: kept_def)
    show "fetches k ?w1 = (if k = K_UFunction then Suc (fetches k w) else fetches k w)"
      by (simp add: fetches_def)
    show "cached k ?w1 = cached k w" if "k \<noteq> K_UFunction"
      using that by (cases k) simp_all
  qed
  then show "since_end k w0 ?w1 \<and> (t \<noteq> None \<longrightarrow> since k w0 ?w1)"
    by simp
qed

lemma FField_lookup:
  "holds_through (since k (w0 :: 'h world)) (since_end k w0)
     (then_op FField_initialize (\<lambda>t. then_op (deref t) (\<lambda>tbl. ret (sel tbl))))"
proof (rule lookup_inv [where rd = "FField_s_functions :: 'h world \<Rightarrow> _" and kf = K_FField and fld = ffield
      and wr = "\<lambda>t (w :: 'h world). w\<lparr>FField_s_functions := t\<rparr>"])
  show "FField_initialize w =
      (if FField_s_functions w = None then
         then_op (then_op API_get_sdk (\<lambda>d. fetch K_FField (ffield d)))
           (\<lambda>t w'. (Inr t, w'\<lparr>FField_s_functions := t\<rparr>)) w
       else (Inr (FField_s_functions w), w))" for w :: "'h world"
    by (simp add: FField_initialize_def)
next
  fix w :: "'h world" and t
  let ?w1 = "w\<lparr>trace := trace w @ [Fetch K_FField], FField_s_functions := t\<rparr>"
  assume n: "FField_s_functions w = None" and s: "since k w0 w"
  have "since_end k w0 ?w1 \<and> (cached K_FField ?w1 \<longrightarrow> since k w0 ?w1)"
  proof (rule fetched_unless_cached [OF s])
    show "\<not> cached K_FField w" using n by simp
    show "kept w0 ?w1" if "kept w0 w" and "\<not> cached K_FField w0"
      using that by (simp add: kept_def)
    show "fetches k ?w1 = (if k = K_FField then Suc (fetches k w) else fetches k w)"
      by (simp add: fetches_def)
    show "cached k ?w1 = cached k w" if "k \<noteq> K_FField"
      using that by (cases k) simp_all
  qed
  then show "since_end k w0 ?w1 \<and> (t \<noteq> None \<longrightarrow> since k w0 ?w1)"
    by simp
qed

lemma FProperty_lookup:
  "holds_through (since k (w0 :: 'h world)) (since_end k w0)
     (then_op FProperty_initialize (\<lambda>t. then_op (deref t) (\<lambda>tbl. ret (sel tbl))))"
proof (rule lookup_inv [where rd = "FProperty_s_functions :: 'h world \<Rightarrow> _" and kf = K_FProperty and fld = fproperty
      and wr = "\<lambda>t (w :: 'h world). w\<lparr>FProperty_s_functions := t\<rparr>"])
  show "FProperty_initialize w =
      (if FProperty_s_functions w = None then
         then_op (then_op API_get_sdk (\<lambda>d. fetch K_FProperty (fproperty d)))
           (\<lambda>t w'. (Inr t, w'\<lparr>FProperty_s_functions := t\<rparr>)) w
       else (Inr (FProperty_s_functions w), w))" for w :: "'h world"
    by (simp add: FProperty_initialize_def)
next
  fix w :: "'h world" and t
  let ?w1 = "w\<lparr>trace := trace w @ [Fetch K_FProperty], FProperty_s_functions := t\<rparr>"
  assume n: "FProperty_s_functions w = None" and s: "since k w0 w"
  have "since_end k w0 ?w1 \<and> (cached K_FProperty ?w1 \<longrightarrow> since k w0 ?w1)"
  proof (rule fetched_unless_cached [OF s])
    show "\<not> cached K_FProperty w" using n by simp
    show "kept w0 ?w1" if "kept w0 w" and "\<not> cached K_FProperty w0"
      using that by (simp add: kept_def)
    show "fetches k ?w1 = (if k = K_FProperty then Suc (fetches k w) else fetches k w)"
      by (simp add: fetches_def)
    show "cached k ?w1 = cached k w" if "k \<noteq> K_FProperty"
      using that by (cases k) simp_all
  qed
  then show "since_end k w0 ?w1 \<and> (t \<noteq> None \<longrightarrow> since k w0 ?w1)"
    by simp
qed

lemma FFieldClass_lookup:
  "holds_through (since k (w0 :: 'h world)) (since_end k w0)
     (then_op FFieldClass_initialize (\<lambda>t. then_op (deref t) (\<lambda>tbl. ret (sel tbl))))"
proof (rule lookup_inv [where rd = "FFieldClass_s_functions :: 'h world \<Rightarrow> _" and kf = K_FFieldClass and fld = ffield_class
      and wr = "\<lambda>t (w :: 'h world). w\<lparr>FFieldClass_s_functions := t\<rparr>"])
  show "FFieldClass_initialize w =
      (if FFieldClass_s_functions w = None then
         then_op (then_op API_get_sdk (\<lambda>d. fetch K_FFieldClass (ffield_class d)))
           (\<lambda>t w'. (Inr t, w'\<lparr>FFieldClass_s_functions := t\<rparr>)) w
       else (Inr (FFieldClass_s_functions w), w))" for w :: "'h world"
    by (simp add: FFieldClass_initialize_def)
next
  fix w :: "'h world" and t
  let ?w1 = "w\<lparr>trace := trace w @ [Fetch K_FFieldClass], FFieldClass_s_functions := t\<rparr>"
  assume n: "FFieldClass_s_functions w = None" and s: "since k w0 w"
  have "since_end k w0 ?w1 \<and> (cached K_FFieldClass ?w1 \<longrightarrow> since k w0 ?w1)"
  proof (rule fetched_unless_cached [OF s])
    show "\<not> cached K_FFieldClass w" using n by simp
    show "kept w0 ?w1" if "kept w0 w" and "\<not> cached K_FFieldClass w0"
      using that by (simp add: kept_def)
    show "fetches k ?w1 = (if k = K_FFieldClass then Suc (fetches k w) else fetches k w)"
      by (simp add: fetches_def)
    show "cached k ?w1 = cached k w" if "k \<noteq> K_FFieldClass"
      using that by (cases k) simp_all
  qed
  then show "since_end k w0 ?w1 \<and> (t \<noteq> None \<longrightarrow> since k w0 ?w1)"
    by simp
qed

subsection \<open>Actions that leave the world alone\<close>

lemma holds_through_same_world:
  assumes "\<And>w. snd (m w) = w" and "\<And>w. I w \<Longrightarrow> Q w"
  shows "holds_through I Q m"
  unfolding holds_through_def
proof (intro allI impI)
  fix w assume "I w"
  moreover have "m w = (fst (m w), w)"
    using assms(1) [of w] by (metis prod.collapse)
  ultimately show "case m w of (Inl Null_Dereference, w') \<Rightarrow> Q w' | (_, w') \<Rightarrow> I w'"
    using assms(2) [of w] by (cases "fst (m w)") (auto split: abort.splits)
qed

lemma hook_lookup_same_world:
  "snd (then_op API_get_sdk (\<lambda>d. then_op (deref (uobject_hook d)) (\<lambda>tbl. ret (sel tbl))) w) = w"
  by (simp add: action_defs API_get_sdk_def API_get_def split: option.splits)

lemma hook_lookup:
  "holds_through (since k w0) (since_end k w0)
     (then_op API_get_sdk (\<lambda>d. then_op (deref (uobject_hook d)) (\<lambda>tbl. ret (sel tbl))))"
  by (rule holds_through_same_world) (simp_all add: hook_lookup_same_world since_imp_end)

lemma holds_through_throw: "(\<And>w. I w \<Longrightarrow> Q w) \<Longrightarrow> holds_through I Q (throw e)"
  by (auto simp: holds_through_def throw_def split: abort.splits)

lemma holds_through_if:
  "holds_through I Q a \<Longrightarrow> holds_through I Q b \<Longrightarrow> holds_through I Q (if c then a else b)"
  by simp

lemma holds_through_case_prod:
  "(\<And>a b. holds_through I Q (f a b)) \<Longrightarrow> holds_through I Q (case p of (a, b) \<Rightarrow> f a b)"
  by (cases p) simp

subsection \<open>The statics and the wrappers\<close>

lemma FName_to_string_static_inv: "holds_through (since k w0) (since_end k w0) FName_to_string_static"
  unfolding FName_to_string_static_def
  by (rule holds_through_local_static [OF FName_lookup]) (rule since_static_frame)

lemma UObject_get_class_static_inv: "holds_through (since k w0) (since_end k w0) UObject_get_class_static"
  unfolding UObject_get_class_static_def
  by (rule holds_through_local_static [OF UObject_lookup]) (rule since_static_frame)

lemma UObject_get_outer_static_inv: "holds_through (since k w0) (since_end k w0) UObject_get_outer_static"
  unfolding UObject_get_outer_static_def
  by (rule holds_through_local_static [OF UObject_lookup]) (rule since_static_frame)

lemma UObject_is_a_static_inv: "holds_through (since k w0) (since_end k w0) UObject_is_a_static"
  unfolding UObject_is_a_static_def
  by (rule holds_through_local_static [OF UObject_lookup]) (rule since_static_frame)

lemma UObject_process_event_static_inv: "holds_through (since k w0) (since_end k w0) UObject_process_event_static"
  unfolding UObject_process_event_static_def
  by (rule holds_through_local_static [OF UObject_lookup]) (rule since_static_frame)

lemma UObject_call_function_static_inv: "holds_through (since k w0) (since_end k w0) UObject_call_function_static"
  unfolding UObject_call_function_static_def
  by (rule holds_through_local_static [OF UObject_lookup]) (rule since_static_frame)

lemma UObject_get_property_data_static_inv:
  "holds_through (since k w0) (since_end k w0) (UObject_get_property_data_static T)"
  unfolding UObject_get_property_data_static_def
  by (rule holds_through_local_static [OF UObject_lookup]) (rule since_static_frame)

lemma UObject_get_fname_static_inv: "holds_through (since k w0) (since_end k w0) UObject_get_fname_static"
  unfolding UObject_get_fname_static_def
  by (rule holds_through_local_static [OF UObject_lookup]) (rule since_static_frame)

lemma UStruct_get_super_struct_static_inv: "holds_through (since k w0) (since_end k w0) UStruct_get_super_struct_static"
  unfolding UStruct_get_super_struct_static_def
  by (rule holds_through_local_static [OF UStruct_lookup]) (rule since_static_frame)

lemma UStruct_find_function_static_inv: "holds_through (since k w0) (since_end k w0) UStruct_find_function_static"
  unfolding UStruct_find_function_static_def
  by (rule holds_through_local_static [OF UStruct_lookup]) (rule since_static_frame)

lemma UStruct_get_child_properties_static_inv: "holds_through (since k w0) (since_end k w0) UStruct_get_child_properties_static"
  unfolding UStruct_get_child_properties_static_def
  by (rule holds_through_local_static [OF UStruct_lookup]) (rule since_static_frame)

lemma UClass_get_class_default_object_static_inv: "holds_through (since k w0) (since_end k w0) UClass_get_class_default_object_static"
  unfolding UClass_get_class_default_object_static_def
  by (rule holds_through_local_static [OF UClass_lookup]) (rule since_static_frame)

lemma UClass_get_objects_matching_activate_static_inv: "holds_through (since k w0) (since_end k w0) UClass_get_objects_matching_activate_static"
  unfolding UClass_get_objects_matching_activate_static_def
  by (rule holds_through_local_static [OF hook_lookup]) (rule since_static_frame)

lemma UClass_get_objects_matching_static_inv: "holds_through (since k w0) (since_end k w0) UClass_get_objects_matching_static"
  unfolding UClass_get_objects_matching_static_def
  by (rule holds_through_local_static [OF hook_lookup]) (rule since_static_frame)

lemma UClass_get_first_object_matching_activate_static_inv: "holds_through (since k w0) (since_end k w0) UClass_get_first_object_matching_activate_static"
  unfolding UClass_get_first_object_matching_activate_static_def
  by (rule holds_through_local_static [OF hook_lookup]) (rule since_static_frame)

lemma UClass_get_first_object_matching_static_inv: "holds_through (since k w0) (since_end k w0) UClass_get_first_object_matching_static"
  unfolding UClass_get_first_object_matching_static_def
  by (rule holds_through_local_static [OF hook_lookup]) (rule since_static_frame)

lemma UFunction_get_native_function_static_inv: "holds_through (since k w0) (since_end k w0) UFunction_get_native_function_static"
  unfolding UFunction_get_native_function_static_def
  by (rule holds_through_local_static [OF UFunction_lookup]) (rule since_static_frame)

lemma FField_get_next_static_inv: "holds_through (since k w0) (since_end k w0) FField_get_next_static"
  unfolding FField_get_next_static_def
  by (rule holds_through_local_static [OF FField_lookup]) (rule since_static_frame)

lemma FField_get_fname_static_inv: "holds_through (since k w0) (since_end k w0) FField_get_fname_static"
  unfolding FField_get_fname_static_def
  by (rule holds_through_local_static [OF FField_lookup]) (rule since_static_frame)

lemma FField_get_class_static_inv: "holds_through (since k w0) (since_end k w0) FField_get_class_static"
  unfolding FField_get_class_static_def
  by (rule holds_through_local_static [OF FField_lookup]) (rule since_static_frame)

lemma FProperty_get_offset_static_inv: "holds_through (since k w0) (since_end k w0) FProperty_get_offset_static"
  unfolding FProperty_get_offset_static_def
  by (rule holds_through_local_static [OF FProperty_lookup]) (rule since_static_frame)

lemma FFieldClass_get_fname_static_inv: "holds_through (since k w0) (since_end k w0) FFieldClass_get_fname_static"
  unfolding FFieldClass_get_fname_static_def
  by (rule holds_through_local_static [OF FFieldClass_lookup]) (rule since_static_frame)

lemmas static_invs =
  FName_to_string_static_inv
  UObject_get_class_static_inv
  UObject_get_outer_static_inv
  UObject_is_a_static_inv
  UObject_process_event_static_inv
  UObject_call_function_static_inv
  UObject_get_property_data_static_inv
  UObject_get_fname_static_inv
  UStruct_get_super_struct_static_inv
  UStruct_find_function_static_inv
  UStruct_get_child_properties_static_inv
  UClass_get_class_default_object_static_inv
  UClass_get_objects_matching_activate_static_inv
  UClass_get_objects_matching_static_inv
  UClass_get_first_object_matching_activate_static_inv
  UClass_get_first_object_matching_static_inv
  UFunction_get_native_function_static_inv
  FField_get_next_static_inv
  FField_get_fname_static_inv
  FField_get_class_static_inv
  FProperty_get_offset_static_inv
  FFieldClass_get_fname_static_inv

lemma host_call_inv:
  "ev \<notin> range Fetch \<Longrightarrow> holds_through (since k w0) Q (host_call ev f)"
  by (rule holds_through_host_call) (rule since_host_frame)

lemma host_call_void_inv:
  "ev \<notin> range Fetch \<Longrightarrow> holds_through (since k w0) Q (host_call_void ev f)"
  by (rule holds_through_host_call_void) (rule since_host_frame)

lemmas inv_rules = holds_through_then_op holds_through_ret holds_through_if holds_through_case_prod
  host_call_inv host_call_void_inv static_invs

lemma FName_to_string_inv: "holds_through (since k w0) (since_end k w0) (FName_to_string this)"
  unfolding FName_to_string_def Let_def
  by (intro inv_rules) auto

lemma UObject_get_class_inv: "holds_through (since k w0) (since_end k w0) (UObject_get_class this)"
  unfolding UObject_get_class_def
  by (intro inv_rules) auto

lemma UObject_get_outer_inv: "holds_through (since k w0) (since_end k w0) (UObject_get_outer this)"
  unfolding UObject_get_outer_def
  by (intro inv_rules) auto

lemma UObject_is_a_inv: "holds_through (since k w0) (since_end k w0) (UObject_is_a this cmp)"
  unfolding UObject_is_a_def
  by (intro inv_rules) auto

lemma UObject_process_event_inv: "holds_through (since k w0) (since_end k w0) (UObject_process_event this function params)"
  unfolding UObject_process_event_def
  by (intro inv_rules) auto

lemma UObject_call_function_inv: "holds_through (since k w0) (since_end k w0) (UObject_call_function this name params)"
  unfolding UObject_call_function_def
  by (intro inv_rules) auto

lemma UObject_get_property_data_T_inv:
  "holds_through (since k w0) (since_end k w0) (UObject_get_property_data_T T this name)"
  unfolding UObject_get_property_data_T_def
  by (intro inv_rules) auto

lemma UObject_get_property_data_inv:
  "holds_through (since k w0) (since_end k w0) (UObject_get_property_data this name)"
  unfolding UObject_get_property_data_def by (rule UObject_get_property_data_T_inv)

lemma UObject_get_property_inv:
  "holds_through (since k w0) (since_end k w0) (UObject_get_property T this name)"
  unfolding UObject_get_property_def
  by (intro inv_rules UObject_get_property_data_T_inv holds_through_throw since_imp_end)

lemma UObject_get_fname_inv: "holds_through (since k w0) (since_end k w0) (UObject_get_fname this)"
  unfolding UObject_get_fname_def
  by (intro inv_rules) auto

lemma UStruct_get_super_struct_inv: "holds_through (since k w0) (since_end k w0) (UStruct_get_super_struct this)"
  unfolding UStruct_get_super_struct_def
  by (intro inv_rules) auto

lemma UStruct_find_function_inv: "holds_through (since k w0) (since_end k w0) (UStruct_find_function this name)"
  unfolding UStruct_find_function_def
  by (intro inv_rules) auto

lemma UStruct_get_child_properties_inv: "holds_through (since k w0) (since_end k w0) (UStruct_get_child_properties this)"
  unfolding UStruct_get_child_properties_def
  by (intro inv_rules) auto

lemma UClass_get_class_default_object_inv: "holds_through (since k w0) (since_end k w0) (UClass_get_class_default_object this)"
  unfolding UClass_get_class_default_object_def
  by (intro inv_rules) auto

lemma UFunction_get_native_function_inv: "holds_through (since k w0) (since_end k w0) (UFunction_get_native_function this)"
  unfolding UFunction_get_native_function_def
  by (intro inv_rules) auto

lemma FField_get_next_inv: "holds_through (since k w0) (since_end k w0) (FField_get_next this)"
  unfolding FField_get_next_def
  by (intro inv_rules) auto

lemma FField_get_fname_inv: "holds_through (since k w0) (since_end k w0) (FField_get_fname this)"
  unfolding FField_get_fname_def
  by (intro inv_rules) auto

lemma FField_get_class_inv: "holds_through (since k w0) (since_end k w0) (FField_get_class this)"
  unfolding FField_get_class_def
  by (intro inv_rules) auto

lemma FProperty_get_offset_inv: "holds_through (since k w0) (since_end k w0) (FProperty_get_offset this)"
  unfolding FProperty_get_offset_def
  by (intro inv_rules) auto

lemma FFieldClass_get_fname_inv: "holds_through (since k w0) (since_end k w0) (FFieldClass_get_fname this)"
  unfolding FFieldClass_get_fname_def
  by (intro inv_rules) auto

lemma outer_walk_inv: "holds_through (since k w0) (since_end k w0) (outer_walk n this outer obj_name)"
proof (induction n arbitrary: outer obj_name)
  case 0
  show ?case
    by (simp add: holds_through_throw since_imp_end)
next
  case (Suc n)
  show ?case
    unfolding outer_walk.simps
    by (intro inv_rules UObject_get_fname_inv UObject_get_outer_inv FName_to_string_inv Suc.IH)
qed

lemma UObject_get_full_name_inv:
  "holds_through (since k w0) (since_end k w0) (UObject_get_full_name fuel this)"
  unfolding UObject_get_full_name_def
  by (intro inv_rules UObject_get_class_inv UObject_get_fname_inv UObject_get_outer_inv
      FName_to_string_inv outer_walk_inv)

lemma UStruct_get_super_inv: "holds_through (since k w0) (since_end k w0) (UStruct_get_super this)"
  unfolding UStruct_get_super_def by (rule UStruct_get_super_struct_inv)

lemma UClass_get_objects_matching_inv:
  "holds_through (since k w0) (since_end k w0) (UClass_get_objects_matching this allow_default)"
  unfolding UClass_get_objects_matching_def Let_def
  by (intro inv_rules) auto

lemma UClass_get_first_object_matching_inv:
  "holds_through (since k w0) (since_end k w0) (UClass_get_first_object_matching this allow_default)"
  unfolding UClass_get_first_object_matching_def
  by (intro inv_rules) auto

lemma UFunction_call_inv: "holds_through (since k w0) (since_end k w0) (UFunction_call this obj params)"
  unfolding UFunction_call_def
  by (intro inv_rules UObject_process_event_inv)

lemma FFieldClass_get_name_inv: "holds_through (since k w0) (since_end k w0) (FFieldClass_get_name this)"
  unfolding FFieldClass_get_name_def
  by (intro inv_rules FFieldClass_get_fname_inv FName_to_string_inv)

lemma API_initialize_inv: "holds_through (since k w0) (since_end k w0) (API_initialize param)"
  by (auto simp: holds_through_def API_initialize_def since_instance_frame split: option.splits)

lemma API_get_inv: "holds_through (since k w0) (since_end k w0) API_get"
  by (auto simp: holds_through_def API_get_def split: option.splits)

lemmas wrapper_invs = API_initialize_inv API_get_inv UObject_get_full_name_inv UStruct_get_super_inv
  UClass_get_objects_matching_inv UClass_get_first_object_matching_inv UFunction_call_inv
  FFieldClass_get_name_inv
  FName_to_string_inv
  UObject_get_class_inv
  UObject_get_outer_inv
  UObject_is_a_inv
  UObject_process_event_inv
  UObject_call_function_inv
  UObject_get_property_data_T_inv
  UObject_get_property_data_inv
  UObject_get_property_inv
  UObject_get_fname_inv
  UStruct_get_super_struct_inv
  UStruct_find_function_inv
  UStruct_get_child_properties_inv
  UClass_get_class_default_object_inv
  UFunction_get_native_function_inv
  FField_get_next_inv
  FField_get_fname_inv
  FField_get_class_inv
  FProperty_get_offset_inv
  FFieldClass_get_fname_inv

subsection \<open>Runs\<close>

lemma ending_inv:
  assumes "holds_through I Q m" and "I w"
  shows "case ending m w of (Some Null_Dereference, w') \<Rightarrow> Q w' | (_, w') \<Rightarrow> I w'"
  using assms
  by (auto simp: holds_through_def ending_def split: prod.splits sum.splits abort.splits option.splits)

lemma ending_since:
  assumes "since k w0 w" and "holds_through (since k w0) (since_end k w0) m"
  shows "case ending m w of (Some Null_Dereference, w') \<Rightarrow> since_end k w0 w' | (_, w') \<Rightarrow> since k w0 w'"
  using assms(2,1) by (rule ending_inv)

lemma exec_inv:
  assumes "since k w0 w"
  shows "case exec c w of (Some Null_Dereference, w') \<Rightarrow> since_end k w0 w' | (_, w') \<Rightarrow> since k w0 w'"
  by (cases c; simp only: exec.simps; rule ending_since [OF assms]; rule wrapper_invs)

lemma run_inv: "since k w0 w \<Longrightarrow> since_end k w0 (run cs w)"
proof (induction cs arbitrary: w)
  case Nil
  then show ?case by (simp add: since_imp_end)
next
  case (Cons c cs)
  obtain e w' where x: "exec c w = (e, w')" by (cases "exec c w")
  show ?case
  proof (cases e)
    case None
    with exec_inv [OF Cons.prems, of c] x Cons.IH [of w'] show ?thesis by simp
  next
    case (Some a)
    with exec_inv [OF Cons.prems, of c] x Cons.IH [of w'] show ?thesis
      by (cases a) (simp_all add: since_imp_end)
  qed
qed

text \<open>
  Claim C6. Whatever calls a process makes one after the other, in whatever order and
  number, the table of a kind is fetched from the entry point at most once. From any
  state on, at most one fetch follows; none follows if the table is cached already; and
  every table pointer that is cached stays what it is.
\<close>

theorem table_fetched_at_most_once:
  "fetches k (run cs (process_start h)) \<le> 1
   \<and> fetches k (run cs w) \<le> Suc (fetches k w)
   \<and> (cached k w \<longrightarrow> fetches k (run cs w) = fetches k w)
   \<and> kept w (run cs w)"
proof -
  have "since_end k w (run cs w)" for w :: "'a world"
    by (rule run_inv) (rule since_refl)
  from this [of "process_start h"] this [of w] show ?thesis
    by (auto simp: since_end_def fetches_def process_start_def split: if_splits)
qed

text \<open>
  On the test host: after one \<^verbatim>\<open>get_class\<close> the table of \<^verbatim>\<open>UObject\<close> is cached and was
  fetched once, and it is still so after more calls.
\<close>

theorem table_fetched_at_most_once_witness:
  "cached K_UObject (run [Call_UObject_get_class 3] (demo_world demo_hook))
   \<and> fetches K_UObject (run [Call_UObject_get_class 3] (demo_world demo_hook)) = 1
   \<and> fetches K_UObject
        (run [Call_UObject_get_outer 3, Call_UObject_get_full_name 5 3, Call_UObject_get_class 5]
           (run [Call_UObject_get_class 3] (demo_world demo_hook))) = 1
   \<and> UObject_s_functions
        (run [Call_UObject_get_outer 3, Call_UObject_get_full_name 5 3, Call_UObject_get_class 5]
           (run [Call_UObject_get_class 3] (demo_world demo_hook))) = Some demo_uobject"
proof -
  let ?w = "run [Call_UObject_get_class 3] (demo_world demo_hook)"
  let ?cs = "[Call_UObject_get_outer 3, Call_UObject_get_full_name 5 3, Call_UObject_get_class 5]"
  have t: "UObject_s_functions ?w = Some demo_uobject"
    by (simp add: ending_def object_defs action_defs demo_defs)
  then have c: "cached K_UObject ?w"
    by simp
  have f: "fetches K_UObject ?w = 1"
    by (simp add: fetches_def ending_def object_defs action_defs demo_defs)
  have "fetches K_UObject (run ?cs ?w) = fetches K_UObject ?w" and "kept ?w (run ?cs ?w)"
    using table_fetched_at_most_once [of K_UObject ?cs 3 ?w] c by blast+
  with t c f show ?thesis
    by (simp add: kept_def)
qed


end
